theory Spec2Isabelle
  imports Complex_Main
begin

section \<open>The board document (types.ts)\<close>

text \<open>
  JavaScript numbers are modelled as real numbers: arithmetic is exact, and the special
  values of IEEE doubles (NaN, the infinities) do not occur. Optional fields of an
  interface are \<open>option\<close> values, arrays are lists, and a \<open>Set\<close> of strings is a set.
  Field names follow types.ts; a prefix is added where a name is used by two interfaces
  or by a constant of the library.
\<close>

datatype ItemType = Text | Image | Todo | Shape | Drawing

datatype Urgency = Low | Medium | High

datatype ShapeKind = Rectangle | Circle

record Position =
  px :: real
  py :: real

record TodoItem =
  todo_id :: string
  todo_text :: string
  completed :: bool
  urgency :: Urgency

record DrawingPath =
  points :: "Position list"
  path_color :: string
  strokeWidth :: real

record Reaction =
  emoji :: string
  count :: real

record CanvasItem =
  item_id :: string
  item_type :: ItemType
  item_x :: real
  item_y :: real
  width :: real
  height :: real
  content :: "string option"
  todos :: "TodoItem list option"
  color :: "string option"
  textColor :: "string option"
  fontFamily :: "string option"
  fontWeight :: "string option"
  fontStyle :: "string option"
  opacity :: "real option"
  shapeType :: "ShapeKind option"
  drawingData :: "DrawingPath list option"
  zIndex :: real
  reactions :: "Reaction list option"

record Connection =
  conn_id :: string
  fromId :: string
  toId :: string
  conn_color :: string

record SelectionBox =
  box_start :: Position
  box_end :: Position

record AppState =
  items :: "CanvasItem list"
  connections :: "Connection list"
  pan :: Position
  scale :: real
  selectedIds :: "string list"
  selectionBox :: "SelectionBox option"

section \<open>The component state of App.tsx\<close>

datatype DragMode = DragNone | DragPan | DragMove | DragResize | DragConnect | DragDraw | DragSelect

datatype ToolMode = ToolSelect | ToolHand | ToolPen

datatype HandleType = HMove | HResize | HConnect

datatype PickerType = PickReaction | PickSticker

record EmojiPicker =
  picker_type :: PickerType
  targetId :: "string option"
  picker_x :: real
  picker_y :: real

text \<open>
  The \<open>useState\<close> cells of the \<open>App\<close> component that the canvas handlers read and write.
  A handler is a function from the component state at the time of the event to the
  component state after it: the closure value \<open>state\<close> and the argument \<open>prev\<close> of a
  functional \<open>setState\<close> are the same document, since events are handled one at a time.
\<close>

record App =
  state :: AppState
  dragMode :: DragMode
  toolMode :: ToolMode
  dragStart :: "Position option"
  activeItemId :: "string option"
  movingChildIds :: "string set"
  tempConnection :: "Position option"
  drawingColor :: string
  emojiPicker :: "EmojiPicker option"

text \<open>The fields of a pointer event that the handlers read.\<close>

record MouseEvent =
  clientX :: real
  clientY :: real
  button :: int
  targetTag :: string
  inButton :: bool
  inEmojiPicker :: bool

record KeyboardEvent =
  key :: string
  ctrlKey :: bool
  metaKey :: bool
  activeTag :: "string option"

text \<open>A string used as a condition is true unless it is \<open>null\<close> or empty.\<close>

fun truthy :: "string option \<Rightarrow> bool" where
  "truthy None = False"
| "truthy (Some s) = (s \<noteq> [])"

section \<open>Deleting items\<close>

text \<open>
  \<open>handleKeyDown\<close>, lines 135-156. The save shortcut calls the persistence collaborator and
  leaves the document as it is.
\<close>

definition handleKeyDown :: "KeyboardEvent \<Rightarrow> App \<Rightarrow> App" where
  "handleKeyDown e app =
     (if key e = ''Delete'' \<or> key e = ''Backspace'' then
        (if activeTag e = Some ''INPUT'' \<or> activeTag e = Some ''TEXTAREA'' then app
         else if length (selectedIds (state app)) > 0 then
           app\<lparr>state := (state app)\<lparr>
             items := filter (\<lambda>i. item_id i \<notin> set (selectedIds (state app))) (items (state app)),
             connections := filter (\<lambda>c. fromId c \<notin> set (selectedIds (state app))
                                        \<and> toId c \<notin> set (selectedIds (state app)))
                              (connections (state app)),
             selectedIds := []\<rparr>\<rparr>
         else app)
      else app)"

text \<open>The \<open>onDelete\<close> callback handed to every item component, lines 1066-1072.\<close>

definition onDelete :: "string \<Rightarrow> App \<Rightarrow> App" where
  "onDelete id' app =
     app\<lparr>state := (state app)\<lparr>
       items := filter (\<lambda>i. item_id i \<noteq> id') (items (state app)),
       connections := filter (\<lambda>c. fromId c \<noteq> id' \<and> toId c \<noteq> id') (connections (state app))\<rparr>\<rparr>"

text \<open>The keyboard delete fires: the key is a delete key and no text field has the focus.\<close>

definition deleteFires :: "KeyboardEvent \<Rightarrow> bool" where
  "deleteFires e =
     ((key e = ''Delete'' \<or> key e = ''Backspace'')
      \<and> activeTag e \<noteq> Some ''INPUT'' \<and> activeTag e \<noteq> Some ''TEXTAREA'')"

text \<open>A connection that has the item \<open>X\<close> as an endpoint.\<close>

definition refersTo :: "string \<Rightarrow> Connection \<Rightarrow> bool" where
  "refersTo X c = (fromId c = X \<or> toId c = X)"

section \<open>The viewport\<close>

text \<open>
  The screen-to-world map is written out wherever a handler needs a world position:
  \<open>(e.clientX - state.pan.x) / state.scale\<close>, and the same for \<open>y\<close> (lines 411-412,
  451-452, 473-474, 505-506, 552-553, 617-618, 625-626, 678-679).
\<close>

definition screenToWorld :: "AppState \<Rightarrow> Position \<Rightarrow> Position" where
  "screenToWorld st p = \<lparr>px = (px p - px (pan st)) / scale st, py = (py p - py (pan st)) / scale st\<rparr>"

text \<open>
  The world-to-screen map is the style of the canvas layer, lines 1052-1056: the transform
  \<open>translate(pan.x, pan.y) scale(scale)\<close> about the top left corner, which sends the
  world point \<open>w\<close> to \<open>w * scale + pan\<close>.
\<close>

definition worldToScreen :: "AppState \<Rightarrow> Position \<Rightarrow> Position" where
  "worldToScreen st w = \<lparr>px = px w * scale st + px (pan st), py = py w * scale st + py (pan st)\<rparr>"

record WheelEvent =
  deltaY :: real
  wheelX :: real
  wheelY :: real

text \<open>\<open>handleWheel\<close>, lines 384-402.\<close>

definition handleWheel :: "WheelEvent \<Rightarrow> App \<Rightarrow> App" where
  "handleWheel e app =
     (let sensitivity = 0.001;
          delta = - deltaY e;
          zoomFactor = exp (delta * sensitivity);
          newScale = min (max 0.1 (scale (state app) * zoomFactor)) 5;
          mouseX = wheelX e;
          mouseY = wheelY e;
          newPanX = mouseX - ((mouseX - px (pan (state app))) / scale (state app)) * newScale;
          newPanY = mouseY - ((mouseY - py (pan (state app))) / scale (state app)) * newScale
      in app\<lparr>state := (state app)\<lparr>scale := newScale, pan := \<lparr>px = newPanX, py = newPanY\<rparr>\<rparr>\<rparr>)"

text \<open>The zoom buttons, lines 1029 and 1032.\<close>

definition zoomIn :: "App \<Rightarrow> App" where
  "zoomIn app = app\<lparr>state := (state app)\<lparr>scale := min 2 (scale (state app) + 0.1)\<rparr>\<rparr>"

definition zoomOut :: "App \<Rightarrow> App" where
  "zoomOut app = app\<lparr>state := (state app)\<lparr>scale := max 0.2 (scale (state app) - 0.1)\<rparr>\<rparr>"

section \<open>Pointer handlers\<close>

datatype error = TypeError

text \<open>
  The identifiers and colours that the source draws with \<open>Math.random()\<close> are arguments
  of the handlers: \<open>newId\<close> is the generated string, and a random number is a real \<open>r\<close>
  with \<open>0 \<le> r < 1\<close>.
\<close>

definition COLORS :: "string list" where
  "COLORS = [''#FF6B6B'', ''#4ECDC4'', ''#45B7D1'', ''#96CEB4'', ''#FFEEAD'']"

text \<open>\<open>handleMouseDown\<close> on the canvas, lines 404-461.\<close>

definition handleMouseDown :: "MouseEvent \<Rightarrow> string \<Rightarrow> App \<Rightarrow> App" where
  "handleMouseDown e newId app =
     (let app1 = (if emojiPicker app \<noteq> None \<and> \<not> inEmojiPicker e
                  then app\<lparr>emojiPicker := None\<rparr> else app)
      in if toolMode app = ToolPen then
           (let startX = (clientX e - px (pan (state app))) / scale (state app);
                startY = (clientY e - py (pan (state app))) / scale (state app);
                newItem = \<lparr>item_id = newId, item_type = Drawing, item_x = startX, item_y = startY,
                           width = 0, height = 0, content = None, todos = None, color = None,
                           textColor = None, fontFamily = None, fontWeight = None,
                           fontStyle = None, opacity = None, shapeType = None,
                           drawingData = Some [\<lparr>points = [\<lparr>px = 0, py = 0\<rparr>],
                                                 path_color = drawingColor app, strokeWidth = 3\<rparr>],
                           zIndex = real (length (items (state app))) + 1, reactions = None\<rparr>
            in app1\<lparr>dragMode := DragDraw, activeItemId := Some newId,
                     state := (state app)\<lparr>items := items (state app) @ [newItem],
                                            selectedIds := [newId]\<rparr>,
                     dragStart := Some \<lparr>px = startX, py = startY\<rparr>\<rparr>)
         else if toolMode app = ToolHand \<or> button e = 1 then
           app1\<lparr>dragMode := DragPan, dragStart := Some \<lparr>px = clientX e, py = clientY e\<rparr>\<rparr>
         else if button e = 0 then
           (if targetTag e = ''INPUT'' \<or> targetTag e = ''TEXTAREA'' \<or> inButton e then app1
            else
              (let startPos = \<lparr>px = (clientX e - px (pan (state app))) / scale (state app),
                               py = (clientY e - py (pan (state app))) / scale (state app)\<rparr>
               in app1\<lparr>dragMode := DragSelect, dragStart := Some startPos,
                        state := (state app)\<lparr>selectedIds := [],
                                   selectionBox := Some \<lparr>box_start = startPos, box_end = startPos\<rparr>\<rparr>\<rparr>))
         else app1)"

text \<open>
  The test of \<open>handleItemMouseDown\<close>, lines 483-488, that makes \<open>other\<close> a child of the
  moved shape: another id, and a box inside the shape's box.
\<close>

definition isChild :: "string \<Rightarrow> CanvasItem \<Rightarrow> CanvasItem \<Rightarrow> bool" where
  "isChild id' movedItem other =
     (item_id other \<noteq> id' \<and>
      item_x other \<ge> item_x movedItem \<and>
      item_x other + width other \<le> item_x movedItem + width movedItem \<and>
      item_y other \<ge> item_y movedItem \<and>
      item_y other + height other \<le> item_y movedItem + height movedItem)"

fun dragModeOf :: "HandleType \<Rightarrow> DragMode" where
  "dragModeOf HMove = DragMove"
| "dragModeOf HResize = DragResize"
| "dragModeOf HConnect = DragConnect"

text \<open>\<open>handleItemMouseDown\<close>, lines 463-499.\<close>

definition handleItemMouseDown :: "MouseEvent \<Rightarrow> string \<Rightarrow> HandleType \<Rightarrow> App \<Rightarrow> App" where
  "handleItemMouseDown e id' type app =
     (if toolMode app = ToolPen \<or> toolMode app = ToolHand then app
      else
        (let movedItem = find (\<lambda>i. item_id i = id') (items (state app));
             children =
               (case movedItem of
                  None \<Rightarrow> {}
                | Some m \<Rightarrow>
                    if type = HMove \<and> item_type m = Shape
                    then fold (\<lambda>other s. if isChild id' m other then insert (item_id other) s else s)
                           (items (state app)) {}
                    else {})
         in app\<lparr>activeItemId := Some id',
                dragStart := Some \<lparr>px = clientX e, py = clientY e\<rparr>,
                dragMode := dragModeOf type,
                tempConnection :=
                  (if type = HConnect
                   then Some \<lparr>px = (clientX e - px (pan (state app))) / scale (state app),
                              py = (clientY e - py (pan (state app))) / scale (state app)\<rparr>
                   else tempConnection app),
                movingChildIds := children,
                state := (state app)\<lparr>selectedIds :=
                  (if id' \<in> set (selectedIds (state app)) then selectedIds (state app) else [id'])\<rparr>\<rparr>))"

text \<open>
  The bounding box loop of the draw branch, lines 518-524: four running bounds, updated
  for every point.
\<close>

definition boundsStep :: "Position \<Rightarrow> real \<times> real \<times> real \<times> real \<Rightarrow> real \<times> real \<times> real \<times> real" where
  "boundsStep p b =
     (case b of (minX, minY, maxX, maxY) \<Rightarrow>
        (if px p < minX then px p else minX,
         if py p < minY then py p else minY,
         if px p > maxX then px p else maxX,
         if py p > maxY then py p else maxY))"

text \<open>\<open>v || 1\<close> for a number \<open>v\<close>.\<close>

definition orOne :: "real \<Rightarrow> real" where
  "orOne v = (if v = 0 then 1 else v)"

text \<open>
  The update of the active drawing item, lines 513-544, for an item whose \<open>drawingData\<close>
  is the array \<open>dd\<close>. With an empty array \<open>path\<close> is \<open>undefined\<close> and reading
  \<open>path.points\<close> throws.
\<close>

definition drawStep :: "real \<Rightarrow> real \<Rightarrow> CanvasItem \<Rightarrow> DrawingPath list \<Rightarrow> error + CanvasItem" where
  "drawStep mouseX mouseY item dd =
     (if dd = [] then Inl TypeError
      else
        (let pathIdx = length dd - 1;
             path = dd ! pathIdx;
             newPoint = \<lparr>px = mouseX - item_x item, py = mouseY - item_y item\<rparr>;
             newPoints = points path @ [newPoint]
         in case fold boundsStep newPoints (0, 0, width item, height item) of
              (minX, minY, maxX, maxY) \<Rightarrow>
                (let shiftX = (if minX < 0 then minX else 0);
                     shiftY = (if minY < 0 then minY else 0);
                     adjustedPoints = map (\<lambda>p. \<lparr>px = px p - shiftX, py = py p - shiftY\<rparr>) newPoints;
                     newDrawingData = dd[pathIdx := path\<lparr>points := adjustedPoints\<rparr>]
                 in Inr (item\<lparr>item_x := item_x item + shiftX,
                               item_y := item_y item + shiftY,
                               width := orOne (maxX - minX),
                               height := orOne (maxY - minY),
                               drawingData := Some newDrawingData\<rparr>))))"

definition drawItem :: "string \<Rightarrow> real \<Rightarrow> real \<Rightarrow> CanvasItem \<Rightarrow> error + CanvasItem" where
  "drawItem aid mouseX mouseY item =
     (case drawingData item of
        None \<Rightarrow> Inr item
      | Some dd \<Rightarrow> if item_id item \<noteq> aid then Inr item else drawStep mouseX mouseY item dd)"

text \<open>\<open>Array.map\<close> with a callback that may throw: the first exception ends the loop.\<close>

fun mapResult :: "('a \<Rightarrow> error + 'b) \<Rightarrow> 'a list \<Rightarrow> error + 'b list" where
  "mapResult f [] = Inr []"
| "mapResult f (a # as) =
     (case f a of
        Inl err \<Rightarrow> Inl err
      | Inr b \<Rightarrow> (case mapResult f as of Inl err \<Rightarrow> Inl err | Inr bs \<Rightarrow> Inr (b # bs)))"

text \<open>The test of the rubber band, lines 563-568: the centre of the item is in the box.\<close>

definition centerInside :: "real \<Rightarrow> real \<Rightarrow> real \<Rightarrow> real \<Rightarrow> CanvasItem \<Rightarrow> bool" where
  "centerInside x1 y1 x2 y2 item =
     (item_x item + width item / 2 \<ge> x1 \<and>
      item_x item + width item / 2 \<le> x2 \<and>
      item_y item + height item / 2 \<ge> y1 \<and>
      item_y item + height item / 2 \<le> y2)"

text \<open>The item updates of the move and the resize branch, lines 595-600 and 608-612.\<close>

definition moveItem :: "string \<Rightarrow> string set \<Rightarrow> real \<Rightarrow> real \<Rightarrow> CanvasItem \<Rightarrow> CanvasItem" where
  "moveItem aid childIds scaledDx scaledDy item =
     (if item_id item = aid \<or> item_id item \<in> childIds
      then item\<lparr>item_x := item_x item + scaledDx, item_y := item_y item + scaledDy\<rparr>
      else item)"

definition resizeItem :: "string \<Rightarrow> real \<Rightarrow> real \<Rightarrow> CanvasItem \<Rightarrow> CanvasItem" where
  "resizeItem aid scaledDx scaledDy item =
     (if item_id item = aid
      then item\<lparr>width := max 50 (width item + scaledDx), height := max 50 (height item + scaledDy)\<rparr>
      else item)"

text \<open>\<open>handleMouseMove\<close>, lines 501-621.\<close>

definition handleMouseMove :: "MouseEvent \<Rightarrow> App \<Rightarrow> error + App" where
  "handleMouseMove e app =
     (if dragMode app = DragNone then Inr app
      else if dragMode app = DragDraw \<and> truthy (activeItemId app) \<and> dragStart app \<noteq> None then
        (let mouseX = (clientX e - px (pan (state app))) / scale (state app);
             mouseY = (clientY e - py (pan (state app))) / scale (state app)
         in case mapResult (drawItem (the (activeItemId app)) mouseX mouseY) (items (state app)) of
              Inl err \<Rightarrow> Inl err
            | Inr items' \<Rightarrow> Inr (app\<lparr>state := (state app)\<lparr>items := items'\<rparr>\<rparr>))
      else if dragMode app = DragSelect \<and> dragStart app \<noteq> None then
        (let currentPos = \<lparr>px = (clientX e - px (pan (state app))) / scale (state app),
                           py = (clientY e - py (pan (state app))) / scale (state app)\<rparr>;
             box = \<lparr>box_start = the (dragStart app), box_end = currentPos\<rparr>;
             x1 = min (px (box_start box)) (px (box_end box));
             y1 = min (py (box_start box)) (py (box_end box));
             x2 = max (px (box_start box)) (px (box_end box));
             y2 = max (py (box_start box)) (py (box_end box));
             selected = map item_id (filter (centerInside x1 y1 x2 y2) (items (state app)))
         in Inr (app\<lparr>state := (state app)\<lparr>selectionBox := Some box, selectedIds := selected\<rparr>\<rparr>))
      else
        (case dragStart app of
           None \<Rightarrow> Inr app
         | Some ds \<Rightarrow>
             (let dx = clientX e - px ds;
                  dy = clientY e - py ds
              in if dragMode app = DragPan then
                   Inr (app\<lparr>state := (state app)\<lparr>pan := \<lparr>px = px (pan (state app)) + dx,
                                                            py = py (pan (state app)) + dy\<rparr>\<rparr>,
                            dragStart := Some \<lparr>px = clientX e, py = clientY e\<rparr>\<rparr>)
                 else if dragMode app = DragMove \<and> truthy (activeItemId app) then
                   (let scaledDx = dx / scale (state app);
                        scaledDy = dy / scale (state app)
                    in Inr (app\<lparr>state := (state app)\<lparr>items :=
                                   map (moveItem (the (activeItemId app)) (movingChildIds app)
                                          scaledDx scaledDy) (items (state app))\<rparr>,
                                 dragStart := Some \<lparr>px = clientX e, py = clientY e\<rparr>\<rparr>))
                 else if dragMode app = DragResize \<and> truthy (activeItemId app) then
                   (let scaledDx = dx / scale (state app);
                        scaledDy = dy / scale (state app)
                    in Inr (app\<lparr>state := (state app)\<lparr>items :=
                                   map (resizeItem (the (activeItemId app)) scaledDx scaledDy)
                                     (items (state app))\<rparr>,
                                 dragStart := Some \<lparr>px = clientX e, py = clientY e\<rparr>\<rparr>))
                 else if dragMode app = DragConnect then
                   Inr (app\<lparr>tempConnection :=
                          Some \<lparr>px = (clientX e - px (pan (state app))) / scale (state app),
                                py = (clientY e - py (pan (state app))) / scale (state app)\<rparr>\<rparr>)
                 else Inr app)))"

text \<open>A run of pointer moves; an exception ends it.\<close>

fun runMoves :: "MouseEvent list \<Rightarrow> App \<Rightarrow> error + App" where
  "runMoves [] app = Inr app"
| "runMoves (e # es) app =
     (case handleMouseMove e app of Inl err \<Rightarrow> Inl err | Inr app' \<Rightarrow> runMoves es app')"

text \<open>The hit test of \<open>handleMouseUp\<close>, lines 629-633.\<close>

definition hitTest :: "string \<Rightarrow> real \<Rightarrow> real \<Rightarrow> CanvasItem \<Rightarrow> bool" where
  "hitTest aid mouseX mouseY item =
     (item_id item \<noteq> aid \<and>
      mouseX \<ge> item_x item \<and> mouseX \<le> item_x item + width item \<and>
      mouseY \<ge> item_y item \<and> mouseY \<le> item_y item + height item)"

text \<open>
  \<open>handleMouseUp\<close>, lines 623-652. \<open>connId\<close> is the string of the first random number and
  \<open>r\<close> the second random number, which picks the colour.
\<close>

definition handleMouseUp :: "MouseEvent \<Rightarrow> string \<Rightarrow> real \<Rightarrow> App \<Rightarrow> App" where
  "handleMouseUp e connId r app =
     (let app1 =
        (if dragMode app = DragConnect \<and> truthy (activeItemId app) then
           (let mouseX = (clientX e - px (pan (state app))) / scale (state app);
                mouseY = (clientY e - py (pan (state app))) / scale (state app);
                targetItem = find (hitTest (the (activeItemId app)) mouseX mouseY) (items (state app))
            in case targetItem of
                 None \<Rightarrow> app
               | Some t \<Rightarrow>
                   (let newConnection =
                          \<lparr>conn_id = connId, fromId = the (activeItemId app), toId = item_id t,
                           conn_color = COLORS ! nat \<lfloor>r * real (length COLORS)\<rfloor>\<rparr>
                    in app\<lparr>state := (state app)\<lparr>connections :=
                             connections (state app) @ [newConnection]\<rparr>\<rparr>))
         else app)
      in app1\<lparr>dragMode := DragNone, dragStart := None, activeItemId := None,
               tempConnection := None, movingChildIds := {},
               state := (state app1)\<lparr>selectionBox := None\<rparr>\<rparr>)"

section \<open>Adding items\<close>

text \<open>
  The second argument of \<open>addItem\<close> is a partial item that overrides the defaults. The
  callers pass \<open>content\<close> (image upload, generated image, sticker), \<open>shapeType\<close>
  (toolbar shape) and \<open>width\<close>, \<open>height\<close>, \<open>fontFamily\<close>, \<open>color\<close> (sticker); no
  caller passes another field.
\<close>

record Extras =
  ex_content :: "string option"
  ex_width :: "real option"
  ex_height :: "real option"
  ex_fontFamily :: "string option"
  ex_color :: "string option"
  ex_shapeType :: "ShapeKind option"

definition noExtras :: Extras where
  "noExtras = \<lparr>ex_content = None, ex_width = None, ex_height = None, ex_fontFamily = None,
               ex_color = None, ex_shapeType = None\<rparr>"

text \<open>A field of the partial item overrides the default when it is given.\<close>

fun orElse :: "'a option \<Rightarrow> 'a \<Rightarrow> 'a" where
  "orElse None d = d"
| "orElse (Some v) d = v"

fun orElseOpt :: "'a option \<Rightarrow> 'a option \<Rightarrow> 'a option" where
  "orElseOpt None d = d"
| "orElseOpt (Some v) d = Some v"

text \<open>\<open>Math.min(...zs)\<close> and \<open>Math.max(...zs)\<close> behind the guard \<open>length > 0\<close>, lines 278-279.\<close>

definition minZ :: "CanvasItem list \<Rightarrow> real" where
  "minZ is = (case map zIndex is of [] \<Rightarrow> 0 | z # zs \<Rightarrow> fold min zs z)"

definition maxZ :: "CanvasItem list \<Rightarrow> real" where
  "maxZ is = (case map zIndex is of [] \<Rightarrow> 0 | z # zs \<Rightarrow> fold max zs z)"

definition playfair :: string where
  "playfair = CHR 0x27 # ''Playfair Display'' @ CHR 0x27 # '', serif''"

definition inter :: string where
  "inter = CHR 0x27 # ''Inter'' @ CHR 0x27 # '', sans-serif''"

record Window =
  innerWidth :: real
  innerHeight :: real

text \<open>\<open>addItem\<close>, lines 273-315.\<close>

definition addItem :: "ItemType \<Rightarrow> Extras \<Rightarrow> Window \<Rightarrow> string \<Rightarrow> App \<Rightarrow> App" where
  "addItem type extras window newId app =
     (let centerX = (- px (pan (state app)) + innerWidth window / 2) / scale (state app);
          centerY = (- py (pan (state app)) + innerHeight window / 2) / scale (state app);
          z = (if type = Shape then minZ (items (state app)) - 1 else maxZ (items (state app)) + 1);
          newItem =
            \<lparr>item_id = newId, item_type = type,
             item_x = centerX - 100, item_y = centerY - 75,
             width = orElse (ex_width extras) (if type = Shape \<or> type = Image then 200 else 250),
             height = orElse (ex_height extras) (if type = Shape \<or> type = Image then 200 else 180),
             content = orElseOpt (ex_content extras) (Some []),
             todos = (if type = Todo
                      then Some [\<lparr>todo_id = ''1'', todo_text = ''Define goals'',
                                  completed = False, urgency = High\<rparr>,
                                 \<lparr>todo_id = ''2'', todo_text = ''Gather inspiration'',
                                  completed = False, urgency = Low\<rparr>]
                      else None),
             color = orElseOpt (ex_color extras) (if type = Shape then Some ''#e2e8f0'' else None),
             textColor = None,
             fontFamily = orElseOpt (ex_fontFamily extras) (if type = Text then Some playfair else None),
             fontWeight = Some ''400'', fontStyle = Some ''normal'', opacity = Some 1,
             shapeType = orElseOpt (ex_shapeType extras) (Some Rectangle),
             drawingData = None, zIndex = z, reactions = None\<rparr>
      in app\<lparr>state := (state app)\<lparr>items := items (state app) @ [newItem], selectedIds := [newId]\<rparr>,
             toolMode := ToolSelect\<rparr>)"

text \<open>The pen button of the toolbar, line 833.\<close>

definition togglePen :: "App \<Rightarrow> App" where
  "togglePen app =
     app\<lparr>toolMode := (if toolMode app = ToolPen then ToolSelect else ToolPen),
         state := (state app)\<lparr>selectedIds := []\<rparr>\<rparr>"

text \<open>
  The text branch of \<open>handleAiGenerate\<close>, lines 715-729. The collaborator's answer is the
  list \<open>ideas\<close>; \<open>rnd idx\<close> gives the generated id and the two random numbers of the item
  at index \<open>idx\<close>.
\<close>

definition aiTextItem :: "Window \<Rightarrow> App \<Rightarrow> (nat \<Rightarrow> string \<times> real \<times> real) \<Rightarrow> nat \<Rightarrow> string \<Rightarrow> CanvasItem" where
  "aiTextItem window app rnd idx idea =
     (let centerX = (- px (pan (state app)) + innerWidth window / 2) / scale (state app);
          centerY = (- py (pan (state app)) + innerHeight window / 2) / scale (state app)
      in case rnd idx of (newId, rx, ry) \<Rightarrow>
           \<lparr>item_id = newId, item_type = Text,
            item_x = centerX + (rx * 400 - 200), item_y = centerY + (ry * 400 - 200),
            width = 200, height = 150, content = Some idea, todos = None, color = None,
            textColor = Some ''#1f2937'', fontFamily = None, fontWeight = None, fontStyle = None,
            opacity = None, shapeType = None, drawingData = None,
            zIndex = real (length (items (state app))) + real idx + 1, reactions = None\<rparr>)"

definition handleAiGenerate :: "string list \<Rightarrow> Window \<Rightarrow> (nat \<Rightarrow> string \<times> real \<times> real) \<Rightarrow> App \<Rightarrow> App" where
  "handleAiGenerate ideas window rnd app =
     app\<lparr>state := (state app)\<lparr>items := items (state app) @
        map (\<lambda>(idx, idea). aiTextItem window app rnd idx idea) (enumerate 0 ideas)\<rparr>\<rparr>"

section \<open>Reactions\<close>

text \<open>The reactions of an item, or the empty array when the field is absent.\<close>

definition reactionsOf :: "CanvasItem \<Rightarrow> Reaction list" where
  "reactionsOf item = (case reactions item of None \<Rightarrow> [] | Some rs \<Rightarrow> rs)"

text \<open>The item update of \<open>handleEmojiSelect\<close>, lines 354-362.\<close>

definition addReaction :: "string \<Rightarrow> CanvasItem \<Rightarrow> CanvasItem" where
  "addReaction e item =
     (let existing = reactionsOf item;
          existingReaction = find (\<lambda>r. emoji r = e) existing;
          newReactions =
            (case existingReaction of
               Some _ \<Rightarrow> map (\<lambda>r. if emoji r = e then r\<lparr>count := count r + 1\<rparr> else r) existing
             | None \<Rightarrow> existing @ [\<lparr>emoji = e, count = 1\<rparr>])
      in item\<lparr>reactions := Some newReactions\<rparr>)"

text \<open>The add-reaction button of an item, lines 1073-1081: it opens the picker on the item.\<close>

definition onAddReaction :: "string \<Rightarrow> MouseEvent \<Rightarrow> App \<Rightarrow> App" where
  "onAddReaction id' e app =
     app\<lparr>emojiPicker := Some \<lparr>picker_type = PickReaction, targetId = Some id',
                               picker_x = clientX e, picker_y = clientY e\<rparr>\<rparr>"

text \<open>\<open>handleEmojiSelect\<close>, lines 345-380.\<close>

definition handleEmojiSelect :: "string \<Rightarrow> Window \<Rightarrow> string \<Rightarrow> App \<Rightarrow> App" where
  "handleEmojiSelect e window newId app =
     (case emojiPicker app of
        None \<Rightarrow> app
      | Some picker \<Rightarrow>
          (if picker_type picker = PickReaction \<and> truthy (targetId picker) then
             app\<lparr>state := (state app)\<lparr>items :=
                    map (\<lambda>item. if Some (item_id item) = targetId picker
                                 then addReaction e item else item) (items (state app))\<rparr>\<rparr>
           else if picker_type picker = PickSticker then
             addItem Text \<lparr>ex_content = Some e, ex_width = Some 100, ex_height = Some 100,
                           ex_fontFamily = Some inter, ex_color = Some ''#ffffff'',
                           ex_shapeType = None\<rparr> window newId app
           else app)\<lparr>emojiPicker := None\<rparr>)"

text \<open>
  \<open>updateItem\<close>, lines 699-704. The partial item \<open>updates\<close> is the function that writes
  its fields into an item.
\<close>

definition updateItem :: "string \<Rightarrow> (CanvasItem \<Rightarrow> CanvasItem) \<Rightarrow> App \<Rightarrow> App" where
  "updateItem id' updates app =
     app\<lparr>state := (state app)\<lparr>items :=
       map (\<lambda>i. if item_id i = id' then updates i else i) (items (state app))\<rparr>\<rparr>"

text \<open>
  \<open>handleReactionClick\<close> of the component that renders \<open>item\<close>, CanvasItemComp.tsx lines
  68-84; \<open>onUpdate\<close> is \<open>updateItem\<close>.
\<close>

definition handleReactionClick :: "string \<Rightarrow> CanvasItem \<Rightarrow> App \<Rightarrow> App" where
  "handleReactionClick e item app =
     (let existing = reactionsOf item;
          target = find (\<lambda>r. emoji r = e) existing
      in case target of
           None \<Rightarrow> app
         | Some t \<Rightarrow>
             (let newReactions =
                    (if count t > 1
                     then map (\<lambda>r. if emoji r = e then r\<lparr>count := count r - 1\<rparr> else r) existing
                     else filter (\<lambda>r. emoji r \<noteq> e) existing)
              in updateItem (item_id item) (\<lambda>i. i\<lparr>reactions := Some newReactions\<rparr>) app))"

text \<open>
  One add through the picker, and one click on the badge of the item rendered from
  position \<open>k\<close> of the document.
\<close>

definition addOnce :: "string \<Rightarrow> string \<Rightarrow> MouseEvent \<Rightarrow> Window \<Rightarrow> string \<Rightarrow> App \<Rightarrow> App" where
  "addOnce id' e ev window newId app = handleEmojiSelect e window newId (onAddReaction id' ev app)"

definition removeOnce :: "nat \<Rightarrow> string \<Rightarrow> App \<Rightarrow> App" where
  "removeOnce k e app =
     (if k < length (items (state app)) then handleReactionClick e (items (state app) ! k) app
      else app)"

section \<open>Notions of the specification\<close>

text \<open>The bounding box of \<open>i\<close> lies inside the bounding box of \<open>S\<close>.\<close>

definition boxInside :: "CanvasItem \<Rightarrow> CanvasItem \<Rightarrow> bool" where
  "boxInside S i =
     (item_x S \<le> item_x i \<and> item_x i + width i \<le> item_x S + width S \<and>
      item_y S \<le> item_y i \<and> item_y i + height i \<le> item_y S + height S)"

text \<open>The bounding box of an item contains a world point.\<close>

definition boxContains :: "CanvasItem \<Rightarrow> Position \<Rightarrow> bool" where
  "boxContains i p =
     (item_x i \<le> px p \<and> px p \<le> item_x i + width i \<and>
      item_y i \<le> py p \<and> py p \<le> item_y i + height i)"

definition translate :: "real \<Rightarrow> real \<Rightarrow> CanvasItem \<Rightarrow> CanvasItem" where
  "translate dx dy i = i\<lparr>item_x := item_x i + dx, item_y := item_y i + dy\<rparr>"

text \<open>The world position of a pointer event.\<close>

definition worldOf :: "AppState \<Rightarrow> MouseEvent \<Rightarrow> Position" where
  "worldOf st e = screenToWorld st \<lparr>px = clientX e, py = clientY e\<rparr>"

text \<open>All points of all paths of an item.\<close>

definition allPoints :: "CanvasItem \<Rightarrow> Position list" where
  "allPoints item = (case drawingData item of None \<Rightarrow> [] | Some dd \<Rightarrow> concat (map points dd))"

definition nonNegative :: "Position \<Rightarrow> bool" where
  "nonNegative p = (0 \<le> px p \<and> 0 \<le> py p)"

section \<open>Example documents\<close>

definition mkItem :: "string \<Rightarrow> ItemType \<Rightarrow> real \<Rightarrow> real \<Rightarrow> real \<Rightarrow> real \<Rightarrow> real \<Rightarrow> CanvasItem" where
  "mkItem i t x y w h z =
     \<lparr>item_id = i, item_type = t, item_x = x, item_y = y, width = w, height = h,
      content = None, todos = None, color = None, textColor = None, fontFamily = None,
      fontWeight = None, fontStyle = None, opacity = None, shapeType = None,
      drawingData = None, zIndex = z, reactions = None\<rparr>"

definition mkConn :: "string \<Rightarrow> string \<Rightarrow> string \<Rightarrow> Connection" where
  "mkConn c f t = \<lparr>conn_id = c, fromId = f, toId = t, conn_color = ''#FF6B6B''\<rparr>"

definition mkApp :: "CanvasItem list \<Rightarrow> Connection list \<Rightarrow> string list \<Rightarrow> App" where
  "mkApp is cs sel =
     \<lparr>state = \<lparr>items = is, connections = cs, pan = \<lparr>px = 0, py = 0\<rparr>, scale = 1,
               selectedIds = sel, selectionBox = None\<rparr>,
      dragMode = DragNone, toolMode = ToolSelect, dragStart = None, activeItemId = None,
      movingChildIds = {}, tempConnection = None, drawingColor = ''#000000'',
      emojiPicker = None\<rparr>"

definition mkEvent :: "real \<Rightarrow> real \<Rightarrow> MouseEvent" where
  "mkEvent x y = \<lparr>clientX = x, clientY = y, button = 0, targetTag = ''DIV'', inButton = False,
                  inEmojiPicker = False\<rparr>"

definition deleteKey :: KeyboardEvent where
  "deleteKey = \<lparr>key = ''Delete'', ctrlKey = False, metaKey = False, activeTag = Some ''BODY''\<rparr>"

definition threeItems :: "CanvasItem list" where
  "threeItems = [mkItem ''a'' Text 0 0 100 100 1, mkItem ''b'' Text 300 0 100 100 2,
                 mkItem ''c'' Text 600 0 100 100 3]"

definition threeConns :: "Connection list" where
  "threeConns = [mkConn ''1'' ''a'' ''b'', mkConn ''2'' ''b'' ''c'', mkConn ''3'' ''c'' ''a'']"

definition smallItems :: "CanvasItem list" where
  "smallItems = [mkItem ''a'' Text 0 0 100 120 1, mkItem ''b'' Text 300 0 100 100 2]"

definition connecting :: App where
  "connecting = handleItemMouseDown (mkEvent 100 50) ''a'' HConnect (mkApp threeItems [] [])"

definition frameItems :: "CanvasItem list" where
  "frameItems = [mkItem ''s'' Shape 0 0 200 200 (-1), mkItem ''c'' Text 50 50 50 50 1,
                 mkItem ''o'' Text 300 0 50 50 2]"

definition movingFrame :: App where
  "movingFrame = handleItemMouseDown (mkEvent 10 10) ''s'' HMove (mkApp frameItems [] [])"

definition penApp :: App where
  "penApp = togglePen (mkApp [] [] [])"

definition stroke :: "MouseEvent list" where
  "stroke = [mkEvent 90 105, mkEvent 105 80]"

definition reacted :: App where
  "reacted = mkApp [(mkItem ''a'' Text 0 0 100 100 1)\<lparr>reactions := Some [\<lparr>emoji = ''x'', count = 2\<rparr>]\<rparr>,
                    mkItem ''b'' Text 300 0 100 100 2] [] []"

definition desktop :: Window where
  "desktop = \<lparr>innerWidth = 1280, innerHeight = 720\<rparr>"

definition INITIAL_STATE :: AppState where
  "INITIAL_STATE = \<lparr>items = [], connections = [], pan = \<lparr>px = 0, py = 0\<rparr>, scale = 1,
                     selectedIds = [], selectionBox = None\<rparr>"

definition freshApp :: App where
  "freshApp = \<lparr>state = INITIAL_STATE, dragMode = DragNone, toolMode = ToolSelect,
               dragStart = None, activeItemId = None, movingChildIds = {},
               tempConnection = None, drawingColor = ''#000000'', emojiPicker = None\<rparr>"

text \<open>A click on the body of an item followed by the delete key.\<close>

definition clickAndDelete :: "string \<Rightarrow> App \<Rightarrow> App" where
  "clickAndDelete id' app =
     handleKeyDown deleteKey
       (handleMouseUp (mkEvent 600 300) ''k0'' 0
          (handleItemMouseDown (mkEvent 600 300) id' HMove app))"

text \<open>
  Three to-do lists are added from the toolbar, and the first two are deleted again: the
  document holds one item, and its \<open>zIndex\<close> is 3.
\<close>

definition oneLeft :: App where
  "oneLeft = clickAndDelete ''b'' (clickAndDelete ''a''
     (addItem Todo noExtras desktop ''c''
        (addItem Todo noExtras desktop ''b''
           (addItem Todo noExtras desktop ''a'' freshApp))))"

section \<open>Cascade delete\<close>

text \<open>
  C1. Deleting the item \<open>X\<close>, by the item's delete callback or by the keyboard delete of a
  selection that holds \<open>X\<close>, removes the items with that id and every connection whose
  \<open>fromId\<close> or \<open>toId\<close> is \<open>X\<close>: the connections that remain are exactly the old ones
  that do not refer to \<open>X\<close> (callback), and none of them refers to a deleted item (both).
\<close>

theorem cascade_delete:
  "(\<forall>c \<in> set (connections (state (onDelete X app))). \<not> refersTo X c) \<and>
   (\<forall>i \<in> set (items (state (onDelete X app))). item_id i \<noteq> X) \<and>
   set (connections (state (onDelete X app)))
     = {c \<in> set (connections (state app)). \<not> refersTo X c} \<and>
   (deleteFires e \<and> X \<in> set (selectedIds (state app)) \<longrightarrow>
      (\<forall>c \<in> set (connections (state (handleKeyDown e app))). \<not> refersTo X c) \<and>
      (\<forall>i \<in> set (items (state (handleKeyDown e app))). item_id i \<noteq> X) \<and>
      set (connections (state (handleKeyDown e app)))
        = {c \<in> set (connections (state app)).
             \<forall>Y \<in> set (selectedIds (state app)). \<not> refersTo Y c})"
proof -
  have del: "(\<forall>c \<in> set (connections (state (onDelete X app))). \<not> refersTo X c) \<and>
      (\<forall>i \<in> set (items (state (onDelete X app))). item_id i \<noteq> X) \<and>
      set (connections (state (onDelete X app)))
        = {c \<in> set (connections (state app)). \<not> refersTo X c}"
    by (auto simp: onDelete_def refersTo_def)
  have kbd: "(\<forall>c \<in> set (connections (state (handleKeyDown e app))). \<not> refersTo X c) \<and>
      (\<forall>i \<in> set (items (state (handleKeyDown e app))). item_id i \<noteq> X) \<and>
      set (connections (state (handleKeyDown e app)))
        = {c \<in> set (connections (state app)).
             \<forall>Y \<in> set (selectedIds (state app)). \<not> refersTo Y c}"
    if fires: "deleteFires e" and sel: "X \<in> set (selectedIds (state app))"
  proof -
    from sel have ne: "length (selectedIds (state app)) > 0"
      by (cases "selectedIds (state app)") auto
    from fires ne have step: "handleKeyDown e app =
        app\<lparr>state := (state app)\<lparr>
             items := filter (\<lambda>i. item_id i \<notin> set (selectedIds (state app))) (items (state app)),
             connections := filter (\<lambda>c. fromId c \<notin> set (selectedIds (state app))
                                        \<and> toId c \<notin> set (selectedIds (state app)))
                              (connections (state app)),
             selectedIds := []\<rparr>\<rparr>"
      by (auto simp: handleKeyDown_def deleteFires_def)
    show ?thesis
      unfolding step using sel by (auto simp: refersTo_def)
  qed
  from del kbd show ?thesis by blast
qed

theorem cascade_delete_witness:
  "deleteFires deleteKey \<and> ''a'' \<in> set (selectedIds (state (mkApp threeItems threeConns [''a''])))
   \<and> connections (state (onDelete ''a'' (mkApp threeItems threeConns [''a''])))
       = [mkConn ''2'' ''b'' ''c'']
   \<and> connections (state (handleKeyDown deleteKey (mkApp threeItems threeConns [''a''])))
       = [mkConn ''2'' ''b'' ''c'']
   \<and> list_all (\<lambda>c. \<not> refersTo ''a'' c)
        (connections (state (handleKeyDown deleteKey (mkApp threeItems threeConns [''a'']))))"
proof -
  have fires: "deleteFires deleteKey"
    by (simp add: deleteFires_def deleteKey_def)
  have sel: "''a'' \<in> set (selectedIds (state (mkApp threeItems threeConns [''a''])))"
    by (simp add: mkApp_def)
  have c1: "connections (state (onDelete ''a'' (mkApp threeItems threeConns [''a''])))
       = [mkConn ''2'' ''b'' ''c'']"
    by (simp add: onDelete_def mkApp_def threeConns_def mkConn_def)
  have c2: "connections (state (handleKeyDown deleteKey (mkApp threeItems threeConns [''a''])))
       = [mkConn ''2'' ''b'' ''c'']"
    by (simp add: handleKeyDown_def deleteKey_def mkApp_def threeConns_def mkConn_def)
  from cascade_delete [of "''a''" "mkApp threeItems threeConns [''a'']" deleteKey] fires sel
  have "list_all (\<lambda>c. \<not> refersTo ''a'' c)
        (connections (state (handleKeyDown deleteKey (mkApp threeItems threeConns [''a'']))))"
    unfolding list_all_iff by blast
  with fires sel c1 c2 show ?thesis by blast
qed

section \<open>Screen and world coordinates\<close>

text \<open>
  C2. For a viewport with nonzero scale the screen-to-world map \<open>(p - pan) / scale\<close> and
  the world-to-screen map \<open>world * scale + pan\<close> are inverses of each other: composed in
  either order they give the point back. Over the real numbers the round trip is exact.
\<close>

theorem screen_world_round_trip:
  assumes "scale st \<noteq> 0"
  shows "worldToScreen st (screenToWorld st p) = p \<and> screenToWorld st (worldToScreen st p) = p"
  using assms by (simp add: worldToScreen_def screenToWorld_def)

theorem screen_world_round_trip_witness:
  "scale (state (zoomIn (mkApp [] [] []))) \<noteq> 0
   \<and> worldToScreen (state (zoomIn (mkApp [] [] [])))
        (screenToWorld (state (zoomIn (mkApp [] [] []))) \<lparr>px = 33, py = -7\<rparr>) = \<lparr>px = 33, py = -7\<rparr>
   \<and> screenToWorld (state (zoomIn (mkApp [] [] []))) \<lparr>px = 33, py = -7\<rparr> = \<lparr>px = 30, py = -70 / 11\<rparr>"
proof -
  have nz: "scale (state (zoomIn (mkApp [] [] []))) \<noteq> 0"
    by (simp add: zoomIn_def mkApp_def)
  have v: "screenToWorld (state (zoomIn (mkApp [] [] []))) \<lparr>px = 33, py = -7\<rparr> = \<lparr>px = 30, py = -70 / 11\<rparr>"
    by (simp add: screenToWorld_def zoomIn_def mkApp_def)
  from screen_world_round_trip [OF nz, of "\<lparr>px = 33, py = -7\<rparr>"] nz v
  show ?thesis by simp
qed

text \<open>
  C3. A wheel event at the screen point \<open>p\<close> sets scale and pan together so that the
  world point under \<open>p\<close> stays where it is: the screen-to-world map of the new viewport
  sends \<open>p\<close> to the same world point as that of the old viewport. The old scale is
  nonzero, as the screen-to-world map requires.
\<close>

theorem wheel_zoom_pivot:
  assumes "scale (state app) \<noteq> 0"
  shows "screenToWorld (state (handleWheel e app)) \<lparr>px = wheelX e, py = wheelY e\<rparr>
         = screenToWorld (state app) \<lparr>px = wheelX e, py = wheelY e\<rparr>"
proof -
  define ns where "ns = min (max 0.1 (scale (state app) * exp (- deltaY e * 0.001))) (5::real)"
  have "1 / 10 \<le> ns"
    unfolding ns_def by simp
  then have pos: "ns \<noteq> 0"
    by auto
  have st: "state (handleWheel e app) =
      (state app)\<lparr>scale := ns,
        pan := \<lparr>px = wheelX e - ((wheelX e - px (pan (state app))) / scale (state app)) * ns,
                py = wheelY e - ((wheelY e - py (pan (state app))) / scale (state app)) * ns\<rparr>\<rparr>"
    by (simp add: handleWheel_def Let_def ns_def)
  show ?thesis
    unfolding st using pos by (simp add: screenToWorld_def)
qed

theorem wheel_zoom_pivot_witness:
  "scale (state (mkApp [] [] [])) \<noteq> 0
   \<and> screenToWorld (state (handleWheel \<lparr>deltaY = -120, wheelX = 40, wheelY = 25\<rparr> (mkApp [] [] [])))
        \<lparr>px = 40, py = 25\<rparr> = \<lparr>px = 40, py = 25\<rparr>"
proof -
  have nz: "scale (state (mkApp [] [] [])) \<noteq> 0"
    by (simp add: mkApp_def)
  have v: "screenToWorld (state (mkApp [] [] [])) \<lparr>px = 40, py = 25\<rparr> = \<lparr>px = 40, py = 25\<rparr>"
    by (simp add: screenToWorld_def mkApp_def)
  from wheel_zoom_pivot [OF nz, of "\<lparr>deltaY = -120, wheelX = 40, wheelY = 25\<rparr>"] nz v
  show ?thesis by simp
qed

section \<open>Resizing\<close>

lemma resize_step:
  assumes "dragMode app = DragResize" "activeItemId app = Some aid" "aid \<noteq> []"
    and "dragStart app = Some ds"
  shows "handleMouseMove e app =
    Inr (app\<lparr>state := (state app)\<lparr>items :=
              map (resizeItem aid ((clientX e - px ds) / scale (state app))
                     ((clientY e - py ds) / scale (state app))) (items (state app))\<rparr>,
            dragStart := Some \<lparr>px = clientX e, py = clientY e\<rparr>\<rparr>)"
  using assms by (simp add: handleMouseMove_def Let_def)

lemma resizeItem_floor:
  "item_id (resizeItem aid a b i) = item_id i"
  "item_id i = aid \<Longrightarrow> 50 \<le> width (resizeItem aid a b i) \<and> 50 \<le> height (resizeItem aid a b i)"
  by (simp_all add: resizeItem_def)

lemma resize_run:
  assumes "dragMode app = DragResize" "activeItemId app = Some aid" "aid \<noteq> []"
    and "dragStart app = Some ds" and "es \<noteq> []"
  shows "\<exists>app'. runMoves es app = Inr app' \<and>
           map item_id (items (state app')) = map item_id (items (state app)) \<and>
           (\<forall>item \<in> set (items (state app')). item_id item = aid \<longrightarrow>
               50 \<le> width item \<and> 50 \<le> height item)"
  using assms
proof (induction es arbitrary: app ds)
  case Nil
  then show ?case by simp
next
  case (Cons e es)
  define app1 where "app1 = app\<lparr>state := (state app)\<lparr>items :=
              map (resizeItem aid ((clientX e - px ds) / scale (state app))
                     ((clientY e - py ds) / scale (state app))) (items (state app))\<rparr>,
            dragStart := Some \<lparr>px = clientX e, py = clientY e\<rparr>\<rparr>"
  have step: "handleMouseMove e app = Inr app1"
    unfolding app1_def using Cons.prems by (intro resize_step) auto
  have ids1: "map item_id (items (state app1)) = map item_id (items (state app))"
    by (simp add: app1_def resizeItem_floor(1))
  have fl1: "\<forall>item \<in> set (items (state app1)). item_id item = aid \<longrightarrow>
               50 \<le> width item \<and> 50 \<le> height item"
    by (simp add: app1_def resizeItem_floor)
  show ?case
  proof (cases "es = []")
    case True
    with step ids1 fl1 show ?thesis by simp
  next
    case False
    have m: "dragMode app1 = DragResize" "activeItemId app1 = Some aid"
      "dragStart app1 = Some \<lparr>px = clientX e, py = clientY e\<rparr>"
      using Cons.prems by (simp_all add: app1_def)
    from Cons.IH [OF m(1) m(2) Cons.prems(3) m(3) False]
    obtain app' where r: "runMoves es app1 = Inr app'"
      and i: "map item_id (items (state app')) = map item_id (items (state app1))"
      and f: "\<forall>item \<in> set (items (state app')). item_id item = aid \<longrightarrow>
               50 \<le> width item \<and> 50 \<le> height item"
      by blast
    from step r i f ids1 show ?thesis by simp
  qed
qed

lemma itemDown_resize:
  assumes "toolMode app = ToolSelect"
  shows "dragMode (handleItemMouseDown e0 aid HResize app) = DragResize"
    "activeItemId (handleItemMouseDown e0 aid HResize app) = Some aid"
    "dragStart (handleItemMouseDown e0 aid HResize app) = Some \<lparr>px = clientX e0, py = clientY e0\<rparr>"
    "items (state (handleItemMouseDown e0 aid HResize app)) = items (state app)"
  using assms by (simp_all add: handleItemMouseDown_def Let_def)

text \<open>
  C8. A resize gesture is a pointer-down on the resize handle of the item \<open>aid\<close> followed
  by pointer moves with any positions. After every run of one or more moves the handler
  has returned, the document holds the same items, and every item with the id \<open>aid\<close>
  has a width and a height of at least 50, whatever the deltas were. The scale is nonzero,
  so that the division of the source is the division of real numbers.
\<close>

theorem resize_floor:
  assumes "toolMode app = ToolSelect" and "aid \<noteq> []" and "es \<noteq> []"
    and "scale (state app) \<noteq> 0"
  shows "\<exists>app'. runMoves es (handleItemMouseDown e0 aid HResize app) = Inr app' \<and>
           map item_id (items (state app')) = map item_id (items (state app)) \<and>
           (\<forall>item \<in> set (items (state app')). item_id item = aid \<longrightarrow>
               50 \<le> width item \<and> 50 \<le> height item)"
proof -
  note d = itemDown_resize [OF assms(1), of e0 aid]
  from resize_run [OF d(1) d(2) assms(2) d(3) assms(3)] show ?thesis
    by (simp add: d(4))
qed

theorem resize_floor_witness:
  "toolMode (mkApp smallItems [] []) = ToolSelect \<and> ''a'' \<noteq> [] \<and> [mkEvent (-900) 95] \<noteq> []
   \<and> scale (state (mkApp smallItems [] [])) \<noteq> 0
   \<and> (case runMoves [mkEvent (-900) 95] (handleItemMouseDown (mkEvent 100 120) ''a'' HResize (mkApp smallItems [] []))
       of Inl err \<Rightarrow> False
        | Inr app' \<Rightarrow> map width (items (state app')) = [50, 100]
             \<and> map height (items (state app')) = [95, 100])"
proof -
  have t: "toolMode (mkApp smallItems [] []) = ToolSelect"
    and nz: "scale (state (mkApp smallItems [] [])) \<noteq> 0"
    by (simp_all add: mkApp_def)
  have ev: "map width (items (state app')) = [50, 100] \<and> map height (items (state app')) = [95, 100]"
    if "runMoves [mkEvent (-900) 95] (handleItemMouseDown (mkEvent 100 120) ''a'' HResize (mkApp smallItems [] [])) = Inr app'"
    for app'
    using that
    by (auto simp add: handleMouseMove_def handleItemMouseDown_def mkApp_def mkEvent_def
        smallItems_def mkItem_def resizeItem_def Let_def)
  from resize_floor [OF t, of "''a''" "[mkEvent (-900) 95]" "mkEvent 100 120"]
  obtain app' where r: "runMoves [mkEvent (-900) 95] (handleItemMouseDown (mkEvent 100 120) ''a'' HResize (mkApp smallItems [] [])) = Inr app'"
    using nz by auto
  from ev [OF r] r t nz show ?thesis by simp
qed


text \<open>
  C10. A pointer move in resize mode returns a document in which the connections, the pan,
  the scale, the selected ids and the selection box are as before, the items are as many
  as before, every item is as before except for its width and its height, and every item
  other than the active one is as before in every field.
\<close>

theorem resize_frame:
  assumes "dragMode app = DragResize"
  shows "\<exists>app'. handleMouseMove e app = Inr app' \<and>
     connections (state app') = connections (state app) \<and>
     pan (state app') = pan (state app) \<and>
     scale (state app') = scale (state app) \<and>
     selectedIds (state app') = selectedIds (state app) \<and>
     selectionBox (state app') = selectionBox (state app) \<and>
     length (items (state app')) = length (items (state app)) \<and>
     (\<forall>k < length (items (state app)).
        (items (state app') ! k)\<lparr>width := width (items (state app) ! k),
                                  height := height (items (state app) ! k)\<rparr>
          = items (state app) ! k \<and>
        (Some (item_id (items (state app) ! k)) \<noteq> activeItemId app \<longrightarrow>
           items (state app') ! k = items (state app) ! k))"
proof (cases "truthy (activeItemId app) \<and> dragStart app \<noteq> None")
  case True
  then obtain aid ds where a: "activeItemId app = Some aid" "aid \<noteq> []" "dragStart app = Some ds"
    by (cases "activeItemId app") auto
  show ?thesis
    unfolding resize_step [OF assms a] using a(1)
    by (simp add: resizeItem_def)
next
  case False
  then have "handleMouseMove e app = Inr app"
    using assms by (auto simp: handleMouseMove_def Let_def split: option.splits)
  then show ?thesis by simp
qed


theorem resize_frame_witness:
  "dragMode (handleItemMouseDown (mkEvent 100 120) ''a'' HResize (mkApp smallItems threeConns [])) = DragResize
   \<and> (case handleMouseMove (mkEvent 130 100)
              (handleItemMouseDown (mkEvent 100 120) ''a'' HResize (mkApp smallItems threeConns []))
       of Inl err \<Rightarrow> False
        | Inr app' \<Rightarrow>
            items (state app') = [mkItem ''a'' Text 0 0 130 100 1, mkItem ''b'' Text 300 0 100 100 2]
            \<and> connections (state app') = threeConns)"
proof -
  define app where "app = handleItemMouseDown (mkEvent 100 120) ''a'' HResize (mkApp smallItems threeConns [])"
  have m: "dragMode app = DragResize"
    by (simp add: app_def handleItemMouseDown_def mkApp_def Let_def)
  from resize_frame [OF m, of "mkEvent 130 100"]
  obtain app' where r: "handleMouseMove (mkEvent 130 100) app = Inr app'"
    and c: "connections (state app') = connections (state app)"
    by blast
  have c0: "connections (state app) = threeConns"
    by (simp add: app_def handleItemMouseDown_def mkApp_def Let_def)
  have "handleMouseMove (mkEvent 130 100) app = Inr app' \<Longrightarrow>
      items (state app') = [mkItem ''a'' Text 0 0 130 100 1, mkItem ''b'' Text 300 0 100 100 2]"
    by (auto simp add: app_def handleMouseMove_def handleItemMouseDown_def mkApp_def mkEvent_def
        smallItems_def mkItem_def resizeItem_def Let_def)
  with r c c0 m show ?thesis
    unfolding app_def [symmetric] by simp
qed

section \<open>Connecting\<close>

lemma hitTest_boxContains:
  "hitTest aid (px (worldOf st e)) (py (worldOf st e)) item
     \<longleftrightarrow> item_id item \<noteq> aid \<and> boxContains item (worldOf st e)"
  by (auto simp: hitTest_def boxContains_def)

lemma worldOf_coords:
  "px (worldOf st e) = (clientX e - px (pan st)) / scale st"
  "py (worldOf st e) = (clientY e - py (pan st)) / scale st"
  by (simp_all add: worldOf_def screenToWorld_def)

lemma palette_pick:
  assumes "0 \<le> r" and "r < 1"
  shows "COLORS ! nat \<lfloor>r * real (length COLORS)\<rfloor> \<in> set COLORS"
proof -
  have len: "length COLORS = 5"
    by (simp add: COLORS_def)
  from assms have "0 \<le> r * 5" and "r * 5 < 5"
    by simp_all
  then have "0 \<le> \<lfloor>r * 5\<rfloor>" and "\<lfloor>r * 5\<rfloor> < 5"
    by (simp_all add: floor_less_iff)
  then have "nat \<lfloor>r * 5\<rfloor> < 5"
    by linarith
  then have "nat \<lfloor>r * 5\<rfloor> < length COLORS"
    by (simp only: len)
  then show ?thesis
    by (simp add: len)
qed

lemma mouseUp_connections:
  assumes "dragMode app = DragConnect" and "activeItemId app = Some src" and "src \<noteq> []"
  shows "connections (state (handleMouseUp e cid r app)) =
     (case find (\<lambda>i. item_id i \<noteq> src \<and> boxContains i (worldOf (state app) e)) (items (state app)) of
        None \<Rightarrow> connections (state app)
      | Some t \<Rightarrow> connections (state app) @
          [\<lparr>conn_id = cid, fromId = src, toId = item_id t,
            conn_color = COLORS ! nat \<lfloor>r * real (length COLORS)\<rfloor>\<rparr>])"
proof -
  have eq: "hitTest src ((clientX e - px (pan (state app))) / scale (state app))
               ((clientY e - py (pan (state app))) / scale (state app))
            = (\<lambda>i. item_id i \<noteq> src \<and> boxContains i (worldOf (state app) e))"
    using hitTest_boxContains [of src "state app" e] by (simp add: worldOf_coords fun_eq_iff)
  show ?thesis
    using assms by (simp add: handleMouseUp_def Let_def eq split: option.splits)
qed

lemma mouseUp_ends:
  "dragMode (handleMouseUp e cid r app) = DragNone"
  "activeItemId (handleMouseUp e cid r app) = None"
  "items (state (handleMouseUp e cid r app)) = items (state app)"
  by (simp_all add: handleMouseUp_def Let_def split: option.splits)

text \<open>
  C7. A connect gesture from the item \<open>src\<close> ends with a pointer-up at the world point
  \<open>p\<close>. The target is the first item of the document, in array order, whose id is not
  \<open>src\<close> and whose bounding box contains \<open>p\<close>. With a target, the connections after
  the pointer-up are the old ones followed by one new connection from \<open>src\<close> to the
  target, with a colour of the palette. Without a target the connections are the old ones.
  In both cases the handler returns, the items are as before and the gesture is over.
  The random number is in \<open>[0, 1)\<close> and the scale is nonzero, so that the division of
  the source is the division of real numbers.
\<close>

theorem connect_release:
  assumes "dragMode app = DragConnect" and "activeItemId app = Some src" and "src \<noteq> []"
    and "0 \<le> r" and "r < 1" and "scale (state app) \<noteq> 0"
  shows "(\<forall>k < length (items (state app)).
            item_id (items (state app) ! k) \<noteq> src
            \<and> boxContains (items (state app) ! k) (worldOf (state app) e)
            \<and> (\<forall>j < k. \<not> (item_id (items (state app) ! j) \<noteq> src
                           \<and> boxContains (items (state app) ! j) (worldOf (state app) e)))
            \<longrightarrow> (\<exists>c. connections (state (handleMouseUp e cid r app)) = connections (state app) @ [c]
                     \<and> conn_id c = cid \<and> fromId c = src
                     \<and> toId c = item_id (items (state app) ! k)
                     \<and> conn_color c \<in> set COLORS))
       \<and> ((\<forall>i \<in> set (items (state app)).
              \<not> (item_id i \<noteq> src \<and> boxContains i (worldOf (state app) e)))
            \<longrightarrow> connections (state (handleMouseUp e cid r app)) = connections (state app))
       \<and> items (state (handleMouseUp e cid r app)) = items (state app)
       \<and> dragMode (handleMouseUp e cid r app) = DragNone"
proof -
  let ?P = "\<lambda>i. item_id i \<noteq> src \<and> boxContains i (worldOf (state app) e)"
  note conns = mouseUp_connections [OF assms(1,2,3), of e cid r]
  have hit: "\<exists>c. connections (state (handleMouseUp e cid r app)) = connections (state app) @ [c]
                     \<and> conn_id c = cid \<and> fromId c = src
                     \<and> toId c = item_id (items (state app) ! k)
                     \<and> conn_color c \<in> set COLORS"
    if k: "k < length (items (state app))" and p: "?P (items (state app) ! k)"
      and first: "\<forall>j < k. \<not> ?P (items (state app) ! j)" for k
  proof -
    from k p first have "find ?P (items (state app)) = Some (items (state app) ! k)"
      unfolding find_Some_iff by blast
    with conns palette_pick [OF assms(4,5)] show ?thesis
      by simp
  qed
  have miss: "connections (state (handleMouseUp e cid r app)) = connections (state app)"
    if "\<forall>i \<in> set (items (state app)). \<not> ?P i"
  proof -
    from that have "find ?P (items (state app)) = None"
      unfolding find_None_iff by blast
    with conns show ?thesis by simp
  qed
  from hit miss mouseUp_ends(1,3) [of e cid r app] show ?thesis
    by blast
qed

theorem connect_release_witness:
  "dragMode connecting = DragConnect \<and> activeItemId connecting = Some ''a'' \<and> ''a'' \<noteq> []
   \<and> (0::real) \<le> 1 / 2 \<and> (1::real) / 2 < 1 \<and> scale (state connecting) \<noteq> 0
   \<and> connections (state (handleMouseUp (mkEvent 350 50) ''k1'' (1 / 2) connecting))
       = [\<lparr>conn_id = ''k1'', fromId = ''a'', toId = ''b'', conn_color = ''#45B7D1''\<rparr>]
   \<and> connections (state (handleMouseUp (mkEvent 50 50) ''k1'' (1 / 2) connecting)) = []
   \<and> connections (state (handleMouseUp (mkEvent 1000 1000) ''k1'' (1 / 2) connecting)) = []"
proof -
  have m: "dragMode connecting = DragConnect" "activeItemId connecting = Some ''a''"
    by (simp_all add: connecting_def handleItemMouseDown_def mkApp_def Let_def)
  have its: "items (state connecting) = threeItems" "connections (state connecting) = []"
    "pan (state connecting) = \<lparr>px = 0, py = 0\<rparr>" "scale (state connecting) = 1"
    by (simp_all add: connecting_def handleItemMouseDown_def mkApp_def Let_def)
  have r: "(0::real) \<le> 1 / 2" "(1::real) / 2 < 1" and a: "''a'' \<noteq> []"
    by simp_all
  have nz: "scale (state connecting) \<noteq> 0"
    by (simp add: its)
  note rel = connect_release [OF m a r nz, of _ "''k1''"]
  have far: "connections (state (handleMouseUp (mkEvent 1000 1000) ''k1'' (1 / 2) connecting)) = []"
    using rel [of "mkEvent 1000 1000"]
    by (simp add: its threeItems_def mkItem_def boxContains_def worldOf_coords mkEvent_def)
  have own: "connections (state (handleMouseUp (mkEvent 50 50) ''k1'' (1 / 2) connecting)) = []"
    using rel [of "mkEvent 50 50"]
    by (simp add: its threeItems_def mkItem_def boxContains_def worldOf_coords mkEvent_def)
  have hit: "connections (state (handleMouseUp (mkEvent 350 50) ''k1'' (1 / 2) connecting))
       = [\<lparr>conn_id = ''k1'', fromId = ''a'', toId = ''b'', conn_color = ''#45B7D1''\<rparr>]"
    using m by (simp add: handleMouseUp_def Let_def its threeItems_def mkItem_def hitTest_def
        mkEvent_def COLORS_def)
  from m a r nz far own hit show ?thesis by simp
qed

section \<open>Moving a shape with its children\<close>

lemma children_fold:
  "fold (\<lambda>other s. if P other then insert (f other) s else s) xs s0
     = s0 \<union> f ` {other \<in> set xs. P other}"
  by (induction xs arbitrary: s0) auto

lemma find_by_id:
  assumes "distinct (map item_id xs)" and "k < length xs"
  shows "find (\<lambda>i. item_id i = item_id (xs ! k)) xs = Some (xs ! k)"
proof -
  have "\<forall>j < k. item_id (xs ! j) \<noteq> item_id (xs ! k)"
  proof (intro allI impI)
    fix j assume "j < k"
    with assms(2) have "j < length (map item_id xs)" "k < length (map item_id xs)" "j \<noteq> k"
      by simp_all
    with assms(1) have "map item_id xs ! j \<noteq> map item_id xs ! k"
      using nth_eq_iff_index_eq by blast
    with \<open>j < k\<close> assms(2) show "item_id (xs ! j) \<noteq> item_id (xs ! k)"
      by simp
  qed
  with assms(2) show ?thesis
    unfolding find_Some_iff by blast
qed

lemma same_id_same_index:
  assumes "distinct (map item_id xs)" and "k < length xs" and "j < length xs"
  shows "item_id (xs ! j) = item_id (xs ! k) \<longleftrightarrow> j = k"
proof -
  from assms(2,3) have "j < length (map item_id xs)" "k < length (map item_id xs)"
    by simp_all
  with assms(1) have "map item_id xs ! j = map item_id xs ! k \<longleftrightarrow> j = k"
    using nth_eq_iff_index_eq by blast
  with assms(2,3) show ?thesis by simp
qed

lemma itemDown_move:
  assumes "toolMode app = ToolSelect" and "distinct (map item_id (items (state app)))"
    and "k < length (items (state app))" and "item_type (items (state app) ! k) = Shape"
  shows "dragMode (handleItemMouseDown e0 (item_id (items (state app) ! k)) HMove app) = DragMove"
    and "activeItemId (handleItemMouseDown e0 (item_id (items (state app) ! k)) HMove app)
           = Some (item_id (items (state app) ! k))"
    and "dragStart (handleItemMouseDown e0 (item_id (items (state app) ! k)) HMove app)
           = Some \<lparr>px = clientX e0, py = clientY e0\<rparr>"
    and "movingChildIds (handleItemMouseDown e0 (item_id (items (state app) ! k)) HMove app)
           = item_id ` {other \<in> set (items (state app)).
                isChild (item_id (items (state app) ! k)) (items (state app) ! k) other}"
    and "items (state (handleItemMouseDown e0 (item_id (items (state app) ! k)) HMove app))
           = items (state app)"
    and "scale (state (handleItemMouseDown e0 (item_id (items (state app) ! k)) HMove app))
           = scale (state app)"
  using assms(1,4) find_by_id [OF assms(2,3)]
  by (simp_all add: handleItemMouseDown_def Let_def children_fold)

lemma move_step:
  assumes "dragMode app = DragMove" and "activeItemId app = Some aid" and "aid \<noteq> []"
    and "dragStart app = Some ds"
  shows "handleMouseMove e app =
    Inr (app\<lparr>state := (state app)\<lparr>items :=
              map (moveItem aid (movingChildIds app) ((clientX e - px ds) / scale (state app))
                     ((clientY e - py ds) / scale (state app))) (items (state app))\<rparr>,
            dragStart := Some \<lparr>px = clientX e, py = clientY e\<rparr>\<rparr>)"
  using assms by (simp add: handleMouseMove_def Let_def)

lemma moveItem_compose:
  "moveItem aid C a b (moveItem aid C c d i) = moveItem aid C (c + a) (d + b) i"
  by (simp add: moveItem_def add.assoc)

lemma moveItem_zero: "moveItem aid C 0 0 i = i"
  by (simp add: moveItem_def)

lemma move_run:
  assumes "dragMode app = DragMove" and "activeItemId app = Some aid" and "aid \<noteq> []"
    and "dragStart app = Some \<lparr>px = clientX e0, py = clientY e0\<rparr>"
  shows "\<exists>app'. runMoves es app = Inr app' \<and>
     items (state app') =
       map (moveItem aid (movingChildIds app)
              ((clientX (last (e0 # es)) - clientX e0) / scale (state app))
              ((clientY (last (e0 # es)) - clientY e0) / scale (state app)))
         (items (state app))"
  using assms
proof (induction es arbitrary: app e0)
  case Nil
  show ?case by (simp add: moveItem_zero)
next
  case (Cons e es)
  define app1 where "app1 = app\<lparr>state := (state app)\<lparr>items :=
              map (moveItem aid (movingChildIds app) ((clientX e - clientX e0) / scale (state app))
                     ((clientY e - clientY e0) / scale (state app))) (items (state app))\<rparr>,
            dragStart := Some \<lparr>px = clientX e, py = clientY e\<rparr>\<rparr>"
  have step: "handleMouseMove e app = Inr app1"
    using move_step [OF Cons.prems, of e] by (simp add: app1_def)
  have m: "dragMode app1 = DragMove" "activeItemId app1 = Some aid"
    "dragStart app1 = Some \<lparr>px = clientX e, py = clientY e\<rparr>"
    using Cons.prems by (simp_all add: app1_def)
  have keep: "movingChildIds app1 = movingChildIds app" "scale (state app1) = scale (state app)"
    by (simp_all add: app1_def)
  define l where "l = last (e # es)"
  from Cons.IH [OF m(1) m(2) Cons.prems(3) m(3)]
  obtain app' where r: "runMoves es app1 = Inr app'"
    and i: "items (state app') =
       map (moveItem aid (movingChildIds app1)
              ((clientX l - clientX e) / scale (state app1))
              ((clientY l - clientY e) / scale (state app1)))
         (items (state app1))"
    unfolding l_def by blast
  have tele: "(b - a) / s + (c - b) / s = (c - a) / s" for a b c s :: real
    by (simp add: add_divide_distrib [symmetric])
  have fin: "items (state app') =
       map (moveItem aid (movingChildIds app)
              ((clientX l - clientX e0) / scale (state app))
              ((clientY l - clientY e0) / scale (state app)))
         (items (state app))"
    unfolding i keep by (simp add: app1_def moveItem_compose tele)
  have run: "runMoves (e # es) app = Inr app'"
    using step r by simp
  have "last (e0 # e # es) = l"
    by (simp add: l_def)
  with run fin show ?case
    by simp
qed

text \<open>
  C4. A move gesture is a pointer-down on the body of the shape \<open>S\<close>, the item at
  position \<open>k\<close> of a document with distinct ids, followed by any run of pointer moves.
  After the run the handler has returned and the document holds the same number of
  items. The item at position \<open>j\<close> is the old one translated by the world-space delta of
  the gesture so far (the screen delta since pointer-down divided by the scale, the same
  for every moved item) if \<open>j = k\<close> or the old item's box was inside the box of \<open>S\<close>
  at pointer-down, and it is the old item, unchanged, otherwise. The set of moved items
  is fixed by the boxes at pointer-down: an item whose box comes to lie inside the box of
  \<open>S\<close> during the gesture is not moved. Since this holds after every run, each single
  step moves exactly these items by that step's delta. The scale is nonzero, so that the
  division of the source is the division of real numbers.
\<close>

theorem children_move:
  assumes "toolMode app = ToolSelect" and "distinct (map item_id (items (state app)))"
    and "k < length (items (state app))" and "item_type (items (state app) ! k) = Shape"
    and "item_id (items (state app) ! k) \<noteq> []" and "scale (state app) \<noteq> 0"
  shows "\<exists>app'. runMoves es (handleItemMouseDown e0 (item_id (items (state app) ! k)) HMove app) = Inr app'
     \<and> length (items (state app')) = length (items (state app))
     \<and> (\<forall>j < length (items (state app)).
          items (state app') ! j =
            (if j = k \<or> boxInside (items (state app) ! k) (items (state app) ! j)
             then translate ((clientX (last (e0 # es)) - clientX e0) / scale (state app))
                    ((clientY (last (e0 # es)) - clientY e0) / scale (state app))
                    (items (state app) ! j)
             else items (state app) ! j))"
proof -
  let ?S = "items (state app) ! k"
  let ?dx = "(clientX (last (e0 # es)) - clientX e0) / scale (state app)"
  let ?dy = "(clientY (last (e0 # es)) - clientY e0) / scale (state app)"
  let ?C = "item_id ` {other \<in> set (items (state app)). isChild (item_id ?S) ?S other}"
  note d = itemDown_move [OF assms(1-4), of e0]
  from move_run [OF d(1) d(2) assms(5) d(3), of es]
  obtain app' where r: "runMoves es (handleItemMouseDown e0 (item_id ?S) HMove app) = Inr app'"
    and i: "items (state app') = map (moveItem (item_id ?S) ?C ?dx ?dy) (items (state app))"
    unfolding d(4) d(5) d(6) by blast
  have pos: "items (state app') ! j =
            (if j = k \<or> boxInside ?S (items (state app) ! j)
             then translate ?dx ?dy (items (state app) ! j)
             else items (state app) ! j)"
    if j: "j < length (items (state app))" for j
  proof -
    let ?i = "items (state app) ! j"
    have same: "item_id ?i = item_id ?S \<longleftrightarrow> j = k"
      by (rule same_id_same_index [OF assms(2,3) j])
    have inj: "inj_on item_id (set (items (state app)))"
      using assms(2) by (simp add: distinct_map)
    have mem: "?i \<in> set (items (state app))"
      using j by simp
    have child: "item_id ?i \<in> ?C \<longleftrightarrow> isChild (item_id ?S) ?S ?i"
      using inj mem by (auto simp: inj_on_def)
    have "isChild (item_id ?S) ?S ?i \<longleftrightarrow> j \<noteq> k \<and> boxInside ?S ?i"
      using same by (auto simp: isChild_def boxInside_def)
    with same child
    have moved: "item_id ?i = item_id ?S \<or> item_id ?i \<in> ?C \<longleftrightarrow> j = k \<or> boxInside ?S ?i"
      by blast
    have "items (state app') ! j = moveItem (item_id ?S) ?C ?dx ?dy ?i"
      using i j by simp
    also have "\<dots> = (if j = k \<or> boxInside ?S ?i then translate ?dx ?dy ?i else ?i)"
      unfolding moveItem_def translate_def using moved by simp
    finally show ?thesis .
  qed
  from r i pos show ?thesis by simp
qed

theorem children_move_witness:
  "toolMode (mkApp frameItems [] []) = ToolSelect
   \<and> distinct (map item_id (items (state (mkApp frameItems [] []))))
   \<and> (0::nat) < length (items (state (mkApp frameItems [] [])))
   \<and> item_type (items (state (mkApp frameItems [] [])) ! 0) = Shape
   \<and> item_id (items (state (mkApp frameItems [] [])) ! 0) \<noteq> []
   \<and> scale (state (mkApp frameItems [] [])) \<noteq> 0
   \<and> (case runMoves [mkEvent 310 10] movingFrame of
         Inl err \<Rightarrow> False
       | Inr app1 \<Rightarrow> boxInside (items (state app1) ! 0) (items (state app1) ! 2))
   \<and> (case runMoves [mkEvent 310 10, mkEvent 320 10] movingFrame of
         Inl err \<Rightarrow> False
       | Inr app' \<Rightarrow> items (state app') =
           [mkItem ''s'' Shape 310 0 200 200 (-1), mkItem ''c'' Text 360 50 50 50 1,
            mkItem ''o'' Text 300 0 50 50 2])"
proof -
  let ?app = "mkApp frameItems [] []"
  have its: "items (state (mkApp xs [] [])) = xs" and sc: "scale (state (mkApp xs [] [])) = 1"
    for xs
    by (simp_all add: mkApp_def)
  have h: "toolMode ?app = ToolSelect" "distinct (map item_id (items (state ?app)))"
    "(0::nat) < length (items (state ?app))" "item_type (items (state ?app) ! 0) = Shape"
    "item_id (items (state ?app) ! 0) \<noteq> []" "scale (state ?app) \<noteq> 0"
    by (simp_all add: mkApp_def frameItems_def mkItem_def)
  have s: "item_id (items (state ?app) ! 0) = ''s''"
    by (simp add: its frameItems_def mkItem_def)
  from children_move [OF h, of "[mkEvent 310 10]" "mkEvent 10 10"]
  obtain app1 where r1: "runMoves [mkEvent 310 10] movingFrame = Inr app1"
    and p1: "\<forall>j < length (items (state ?app)). items (state app1) ! j =
            (if j = 0 \<or> boxInside (items (state ?app) ! 0) (items (state ?app) ! j)
             then translate ((clientX (last [mkEvent 10 10, mkEvent 310 10]) - clientX (mkEvent 10 10)) / scale (state ?app))
                    ((clientY (last [mkEvent 10 10, mkEvent 310 10]) - clientY (mkEvent 10 10)) / scale (state ?app))
                    (items (state ?app) ! j)
             else items (state ?app) ! j)"
    unfolding movingFrame_def s by auto
  from p1 have a0: "items (state app1) ! 0 = mkItem ''s'' Shape 300 0 200 200 (-1)"
    by (simp add: its sc frameItems_def mkItem_def mkEvent_def translate_def)
  from p1 have "items (state app1) ! 2 =
            (if (2::nat) = 0 \<or> boxInside (items (state ?app) ! 0) (items (state ?app) ! 2)
             then translate ((clientX (last [mkEvent 10 10, mkEvent 310 10]) - clientX (mkEvent 10 10)) / scale (state ?app))
                    ((clientY (last [mkEvent 10 10, mkEvent 310 10]) - clientY (mkEvent 10 10)) / scale (state ?app))
                    (items (state ?app) ! 2)
             else items (state ?app) ! 2)"
    by (simp add: its frameItems_def)
  then have a2: "items (state app1) ! 2 = mkItem ''o'' Text 300 0 50 50 2"
    by (simp add: its sc frameItems_def mkItem_def mkEvent_def translate_def boxInside_def)
  have mid: "boxInside (items (state app1) ! 0) (items (state app1) ! 2)"
    unfolding a0 a2 by (simp add: boxInside_def mkItem_def)
  from children_move [OF h, of "[mkEvent 310 10, mkEvent 320 10]" "mkEvent 10 10"]
  obtain app' where r2: "runMoves [mkEvent 310 10, mkEvent 320 10] movingFrame = Inr app'"
    and len: "length (items (state app')) = length (items (state ?app))"
    and p2: "\<forall>j < length (items (state ?app)). items (state app') ! j =
            (if j = 0 \<or> boxInside (items (state ?app) ! 0) (items (state ?app) ! j)
             then translate ((clientX (last [mkEvent 10 10, mkEvent 310 10, mkEvent 320 10]) - clientX (mkEvent 10 10)) / scale (state ?app))
                    ((clientY (last [mkEvent 10 10, mkEvent 310 10, mkEvent 320 10]) - clientY (mkEvent 10 10)) / scale (state ?app))
                    (items (state ?app) ! j)
             else items (state ?app) ! j)"
    unfolding movingFrame_def s by auto
  have fin: "items (state app') =
           [mkItem ''s'' Shape 310 0 200 200 (-1), mkItem ''c'' Text 360 50 50 50 1,
            mkItem ''o'' Text 300 0 50 50 2]"
  proof (rule nth_equalityI)
    show "length (items (state app')) = length [mkItem ''s'' Shape 310 0 200 200 (-1), mkItem ''c'' Text 360 50 50 50 1,
            mkItem ''o'' Text 300 0 50 50 2]"
      using len by (simp add: its frameItems_def)
  next
    fix j assume "j < length (items (state app'))"
    then have "j < 3" using len by (simp add: its frameItems_def)
    then consider "j = 0" | "j = 1" | "j = 2" by linarith
    then show "items (state app') ! j = [mkItem ''s'' Shape 310 0 200 200 (-1), mkItem ''c'' Text 360 50 50 50 1,
            mkItem ''o'' Text 300 0 50 50 2] ! j"
    proof cases
      case 1
      with p2 show ?thesis
        by (simp add: its sc frameItems_def mkItem_def mkEvent_def translate_def)
    next
      case 2
      from p2 have "items (state app') ! 1 =
            (if (1::nat) = 0 \<or> boxInside (items (state ?app) ! 0) (items (state ?app) ! 1)
             then translate ((clientX (last [mkEvent 10 10, mkEvent 310 10, mkEvent 320 10]) - clientX (mkEvent 10 10)) / scale (state ?app))
                    ((clientY (last [mkEvent 10 10, mkEvent 310 10, mkEvent 320 10]) - clientY (mkEvent 10 10)) / scale (state ?app))
                    (items (state ?app) ! 1)
             else items (state ?app) ! 1)"
        by (simp add: its frameItems_def)
      with 2 show ?thesis
        by (simp add: its sc frameItems_def mkItem_def mkEvent_def translate_def boxInside_def)
    next
      case 3
      from p2 have "items (state app') ! 2 =
            (if (2::nat) = 0 \<or> boxInside (items (state ?app) ! 0) (items (state ?app) ! 2)
             then translate ((clientX (last [mkEvent 10 10, mkEvent 310 10, mkEvent 320 10]) - clientX (mkEvent 10 10)) / scale (state ?app))
                    ((clientY (last [mkEvent 10 10, mkEvent 310 10, mkEvent 320 10]) - clientY (mkEvent 10 10)) / scale (state ?app))
                    (items (state ?app) ! 2)
             else items (state ?app) ! 2)"
        by (simp add: its frameItems_def)
      with 3 show ?thesis
        by (simp add: its sc frameItems_def mkItem_def mkEvent_def translate_def boxInside_def)
    qed
  qed
  from h r1 mid r2 fin show ?thesis by simp
qed

section \<open>Freehand drawing\<close>

lemma mapResult_snoc:
  assumes "mapResult f xs = Inr xs'" and "f y = Inr y'"
  shows "mapResult f (xs @ [y]) = Inr (xs' @ [y'])"
  using assms
  by (induction xs arbitrary: xs') (auto split: sum.splits)

lemma drawItem_other:
  assumes "\<forall>i \<in> set old. item_id i \<noteq> aid"
  shows "mapResult (drawItem aid mx my) old = Inr old"
  using assms
  by (induction old) (auto simp: drawItem_def split: option.splits)

lemma fold_boundsStep:
  "fold boundsStep ps (a, b, c, d)
     = (fold min (map px ps) a, fold min (map py ps) b,
        fold max (map px ps) c, fold max (map py ps) d)"
proof (induction ps arbitrary: a b c d)
  case Nil
  show ?case by simp
next
  case (Cons p ps)
  have "boundsStep p (a, b, c, d) = (min (px p) a, min (py p) b, max (px p) c, max (py p) d)"
    by (auto simp: boundsStep_def min_def max_def)
  with Cons.IH show ?case by simp
qed

lemma fold_min_lower:
  fixes a :: real
  assumes "\<forall>x \<in> set xs. a \<le> x"
  shows "fold min xs a = a"
  using assms by (induction xs) (simp_all add: min_absorb2)

lemma fold_min_Min:
  fixes a :: real
  shows "fold min xs a = Min (set (a # xs))"
  by (rule Min.set_eq_fold [symmetric])

lemma fold_min_shift:
  fixes a c :: real
  shows "fold min (map (\<lambda>v. v - c) xs) (a - c) = fold min xs a - c"
proof (induction xs arbitrary: a)
  case Nil
  show ?case by simp
next
  case (Cons x xs)
  have "min (x - c) (a - c) = min x a - c"
    by (simp add: min_def)
  with Cons.IH [of "min x a"] show ?case by simp
qed

lemma drawStep_single:
  assumes nn: "\<forall>p \<in> set (points path). nonNegative p"
  shows "\<exists>d' path'. drawStep mx my d [path] = Inr d' \<and> item_id d' = item_id d
     \<and> item_x d' = min mx (item_x d) \<and> item_y d' = min my (item_y d)
     \<and> drawingData d' = Some [path'] \<and> (\<forall>p \<in> set (points path'). nonNegative p)"
proof -
  define np where "np = \<lparr>px = mx - item_x d, py = my - item_y d\<rparr>"
  define minX where "minX = min (px np) 0"
  define minY where "minY = min (py np) 0"
  define maxX where "maxX = fold max (map px (points path @ [np])) (width d)"
  define maxY where "maxY = fold max (map py (points path @ [np])) (height d)"
  define adjusted where
    "adjusted = map (\<lambda>p. \<lparr>px = px p - minX, py = py p - minY\<rparr>) (points path @ [np])"
  define d' where "d' = d\<lparr>item_x := item_x d + minX, item_y := item_y d + minY,
      width := orOne (maxX - minX), height := orOne (maxY - minY),
      drawingData := Some [path\<lparr>points := adjusted\<rparr>]\<rparr>"
  from nn have x0: "fold min (map px (points path)) 0 = 0"
    and y0: "fold min (map py (points path)) 0 = 0"
    by (simp_all add: fold_min_lower nonNegative_def)
  have bounds: "fold boundsStep (points path @ [np]) (0, 0, width d, height d)
      = (minX, minY, maxX, maxY)"
    unfolding fold_boundsStep by (simp add: x0 y0 minX_def minY_def maxX_def maxY_def)
  have neg: "(if minX < 0 then minX else 0) = minX" "(if minY < 0 then minY else 0) = minY"
    by (simp_all add: minX_def minY_def min_def)
  from bounds have bounds': "boundsStep np (fold boundsStep (points path) (0, 0, width d, height d))
      = (minX, minY, maxX, maxY)"
    by simp
  have run: "drawStep mx my d [path] = Inr d'"
    unfolding drawStep_def
    by (simp add: Let_def np_def [symmetric] bounds' neg adjusted_def d'_def)
  have ox: "item_x d' = min mx (item_x d)" and oy: "item_y d' = min my (item_y d)"
    by (simp_all add: d'_def minX_def minY_def np_def min_def)
  have pts: "\<forall>p \<in> set (points (path\<lparr>points := adjusted\<rparr>)). nonNegative p"
    using nn by (auto simp: adjusted_def nonNegative_def minX_def minY_def min_def)
  have "item_id d' = item_id d" "drawingData d' = Some [path\<lparr>points := adjusted\<rparr>]"
    by (simp_all add: d'_def)
  with run ox oy pts show ?thesis by blast
qed

text \<open>The state of a drawing gesture: the active item is the last one and has one path.\<close>

lemma draw_run:
  assumes "dragMode app = DragDraw" and "activeItemId app = Some aid" and "aid \<noteq> []"
    and "dragStart app \<noteq> None"
    and "items (state app) = old @ [d]" and "\<forall>i \<in> set old. item_id i \<noteq> aid"
    and "item_id d = aid" and "drawingData d = Some [path]"
    and "\<forall>p \<in> set (points path). nonNegative p"
  shows "\<exists>app' d' path'. runMoves es app = Inr app' \<and> items (state app') = old @ [d']
     \<and> item_id d' = aid \<and> drawingData d' = Some [path']
     \<and> (\<forall>p \<in> set (points path'). nonNegative p)
     \<and> item_x d' = fold min (map (\<lambda>e. px (worldOf (state app) e)) es) (item_x d)
     \<and> item_y d' = fold min (map (\<lambda>e. py (worldOf (state app) e)) es) (item_y d)"
  using assms
proof (induction es arbitrary: app d path)
  case Nil
  then show ?case by simp
next
  case (Cons e es)
  let ?mx = "(clientX e - px (pan (state app))) / scale (state app)"
  let ?my = "(clientY e - py (pan (state app))) / scale (state app)"
  from drawStep_single [OF Cons.prems(9), of ?mx ?my d]
  obtain d1 path1 where ds: "drawStep ?mx ?my d [path] = Inr d1"
    and id1: "item_id d1 = aid" and x1: "item_x d1 = min ?mx (item_x d)"
    and y1: "item_y d1 = min ?my (item_y d)" and dd1: "drawingData d1 = Some [path1]"
    and nn1: "\<forall>p \<in> set (points path1). nonNegative p"
    using Cons.prems(7) by auto
  have "drawItem aid ?mx ?my d = Inr d1"
    using ds Cons.prems(7,8) by (simp add: drawItem_def)
  with drawItem_other [OF Cons.prems(6), of ?mx ?my]
  have mr: "mapResult (drawItem aid ?mx ?my) (items (state app)) = Inr (old @ [d1])"
    unfolding Cons.prems(5) by (rule mapResult_snoc)
  define app1 where "app1 = app\<lparr>state := (state app)\<lparr>items := old @ [d1]\<rparr>\<rparr>"
  have step: "handleMouseMove e app = Inr app1"
    using Cons.prems(1-4) mr by (simp add: handleMouseMove_def Let_def app1_def)
  have m: "dragMode app1 = DragDraw" "activeItemId app1 = Some aid" "dragStart app1 \<noteq> None"
    "items (state app1) = old @ [d1]"
    using Cons.prems(1-4) by (simp_all add: app1_def)
  have w: "worldOf (state app1) = worldOf (state app)"
    by (simp add: app1_def worldOf_def screenToWorld_def fun_eq_iff)
  from Cons.IH [OF m(1) m(2) Cons.prems(3) m(3) m(4) Cons.prems(6) id1 dd1 nn1]
  obtain app' d' path' where r: "runMoves es app1 = Inr app'"
    and res: "items (state app') = old @ [d']" "item_id d' = aid" "drawingData d' = Some [path']"
      "\<forall>p \<in> set (points path'). nonNegative p"
    and fx: "item_x d' = fold min (map (\<lambda>e. px (worldOf (state app) e)) es) (item_x d1)"
    and fy: "item_y d' = fold min (map (\<lambda>e. py (worldOf (state app) e)) es) (item_y d1)"
    unfolding w by blast
  have wx: "px (worldOf (state app) e) = ?mx" and wy: "py (worldOf (state app) e) = ?my"
    by (simp_all add: worldOf_def screenToWorld_def)
  have "item_x d' = fold min (map (\<lambda>e. px (worldOf (state app) e)) (e # es)) (item_x d)"
    and "item_y d' = fold min (map (\<lambda>e. py (worldOf (state app) e)) (e # es)) (item_y d)"
    unfolding fx fy x1 y1 by (simp_all add: wx wy)
  with step r res show ?case by auto
qed

lemma penDown:
  assumes "toolMode app = ToolPen"
  shows "\<exists>d path. dragMode (handleMouseDown e0 newId app) = DragDraw
     \<and> activeItemId (handleMouseDown e0 newId app) = Some newId
     \<and> dragStart (handleMouseDown e0 newId app) \<noteq> None
     \<and> items (state (handleMouseDown e0 newId app)) = items (state app) @ [d]
     \<and> worldOf (state (handleMouseDown e0 newId app)) = worldOf (state app)
     \<and> item_id d = newId \<and> drawingData d = Some [path] \<and> points path = [\<lparr>px = 0, py = 0\<rparr>]
     \<and> item_x d = px (worldOf (state app) e0) \<and> item_y d = py (worldOf (state app) e0)
     \<and> zIndex d = real (length (items (state app))) + 1"
  using assms
  by (simp add: handleMouseDown_def Let_def worldOf_def screenToWorld_def fun_eq_iff)

text \<open>
  C5. A drawing gesture is a pointer-down with the pen tool, which appends a drawing item
  with a fresh id at the world position of the pointer, followed by any run of pointer
  moves. After the run (so after every step) the handler has returned, the document is
  the old items followed by the drawing item, every stored point of the drawing item is
  non-negative in both coordinates, and the origin of the item has moved from the
  pointer-down position by the minimum, taken in each coordinate, of zero and the
  excursions of the pointer from the pointer-down position. The scale is nonzero, so
  that the division of the source is the division of real numbers. For the stroke
  \<open>(0,0)\<close>, \<open>(-10,5)\<close>, \<open>(5,-20)\<close> the origin moves by \<open>(-10,-20)\<close>.
\<close>

theorem drawing_reflow:
  assumes "toolMode app = ToolPen" and "newId \<noteq> []"
    and "newId \<notin> item_id ` set (items (state app))" and "scale (state app) \<noteq> 0"
  shows "\<exists>app' d. runMoves es (handleMouseDown e0 newId app) = Inr app'
     \<and> items (state app') = items (state app) @ [d]
     \<and> item_id d = newId
     \<and> (\<forall>p \<in> set (allPoints d). nonNegative p)
     \<and> item_x d - px (worldOf (state app) e0)
         = Min (set (0 # map (\<lambda>e. px (worldOf (state app) e) - px (worldOf (state app) e0)) es))
     \<and> item_y d - py (worldOf (state app) e0)
         = Min (set (0 # map (\<lambda>e. py (worldOf (state app) e) - py (worldOf (state app) e0)) es))"
proof -
  let ?app0 = "handleMouseDown e0 newId app"
  let ?sx = "px (worldOf (state app) e0)"
  let ?sy = "py (worldOf (state app) e0)"
  from penDown [OF assms(1), of e0 newId]
  obtain d0 path0 where m: "dragMode ?app0 = DragDraw" "activeItemId ?app0 = Some newId"
      "dragStart ?app0 \<noteq> None" "items (state ?app0) = items (state app) @ [d0]"
    and w: "worldOf (state ?app0) = worldOf (state app)"
    and d0: "item_id d0 = newId" "drawingData d0 = Some [path0]"
    and p0: "points path0 = [\<lparr>px = 0, py = 0\<rparr>]"
    and o0: "item_x d0 = ?sx" "item_y d0 = ?sy"
    by blast
  have fresh: "\<forall>i \<in> set (items (state app)). item_id i \<noteq> newId"
    using assms(3) by auto
  have nn0: "\<forall>p \<in> set (points path0). nonNegative p"
    by (simp add: p0 nonNegative_def)
  from draw_run [OF m(1) m(2) assms(2) m(3) m(4) fresh d0 nn0, of es]
  obtain app' d path where r: "runMoves es ?app0 = Inr app'"
    and res: "items (state app') = items (state app) @ [d]" "item_id d = newId"
    and dd: "drawingData d = Some [path]" and nn: "\<forall>p \<in> set (points path). nonNegative p"
    and fx: "item_x d = fold min (map (\<lambda>e. px (worldOf (state app) e)) es) ?sx"
    and fy: "item_y d = fold min (map (\<lambda>e. py (worldOf (state app) e)) es) ?sy"
    unfolding w o0 by blast
  have pts: "\<forall>p \<in> set (allPoints d). nonNegative p"
    using nn by (simp add: allPoints_def dd)
  have "item_x d - ?sx = fold min (map (\<lambda>v. v - ?sx) (map (\<lambda>e. px (worldOf (state app) e)) es)) (?sx - ?sx)"
    unfolding fx fold_min_shift ..
  then have sx: "item_x d - ?sx = Min (set (0 # map (\<lambda>e. px (worldOf (state app) e) - ?sx) es))"
    unfolding fold_min_Min [symmetric] by (simp add: comp_def)
  have "item_y d - ?sy = fold min (map (\<lambda>v. v - ?sy) (map (\<lambda>e. py (worldOf (state app) e)) es)) (?sy - ?sy)"
    unfolding fy fold_min_shift ..
  then have sy: "item_y d - ?sy = Min (set (0 # map (\<lambda>e. py (worldOf (state app) e) - ?sy) es))"
    unfolding fold_min_Min [symmetric] by (simp add: comp_def)
  from r res pts sx sy show ?thesis by blast
qed

theorem drawing_reflow_witness:
  "toolMode penApp = ToolPen \<and> ''d1'' \<noteq> [] \<and> ''d1'' \<notin> item_id ` set (items (state penApp))
   \<and> scale (state penApp) \<noteq> 0
   \<and> (case runMoves stroke (handleMouseDown (mkEvent 100 100) ''d1'' penApp) of
         Inl err \<Rightarrow> False
       | Inr app' \<Rightarrow>
           map item_x (items (state app')) = [90] \<and> map item_y (items (state app')) = [80]
           \<and> map width (items (state app')) = [15] \<and> map height (items (state app')) = [25]
           \<and> map allPoints (items (state app'))
               = [[\<lparr>px = 10, py = 20\<rparr>, \<lparr>px = 0, py = 25\<rparr>, \<lparr>px = 15, py = 0\<rparr>]])"
proof -
  have h: "toolMode penApp = ToolPen" "''d1'' \<noteq> []"
    "''d1'' \<notin> item_id ` set (items (state penApp))" "scale (state penApp) \<noteq> 0"
    by (simp_all add: penApp_def togglePen_def mkApp_def)
  have down: "handleMouseDown (mkEvent 100 100) ''d1'' penApp =
      penApp\<lparr>dragMode := DragDraw, activeItemId := Some ''d1'',
        state := (state penApp)\<lparr>items :=
          [(mkItem ''d1'' Drawing 100 100 0 0 1)\<lparr>drawingData :=
             Some [\<lparr>points = [\<lparr>px = 0, py = 0\<rparr>], path_color = ''#000000'', strokeWidth = 3\<rparr>]\<rparr>],
          selectedIds := [''d1'']\<rparr>,
        dragStart := Some \<lparr>px = 100, py = 100\<rparr>\<rparr>"
    by (simp add: handleMouseDown_def Let_def penApp_def togglePen_def mkApp_def mkEvent_def
        mkItem_def)
  have ev: "map item_x (items (state app')) = [90] \<and> map item_y (items (state app')) = [80]
           \<and> map width (items (state app')) = [15] \<and> map height (items (state app')) = [25]
           \<and> map allPoints (items (state app'))
               = [[\<lparr>px = 10, py = 20\<rparr>, \<lparr>px = 0, py = 25\<rparr>, \<lparr>px = 15, py = 0\<rparr>]]"
    if "runMoves stroke (handleMouseDown (mkEvent 100 100) ''d1'' penApp) = Inr app'" for app'
    using that unfolding down
    by (auto simp add: stroke_def handleMouseMove_def drawItem_def drawStep_def boundsStep_def
        orOne_def allPoints_def Let_def penApp_def togglePen_def mkApp_def mkEvent_def mkItem_def)
  from drawing_reflow [OF h, of stroke "mkEvent 100 100"]
  obtain app' where "runMoves stroke (handleMouseDown (mkEvent 100 100) ''d1'' penApp) = Inr app'"
    by blast
  with ev [OF this] h show ?thesis by simp
qed

section \<open>Counting reactions\<close>

lemma map_at_id:
  assumes "distinct (map item_id xs)" and "k < length xs"
  shows "map (\<lambda>i. if item_id i = item_id (xs ! k) then g i else i) xs = xs[k := g (xs ! k)]"
proof (rule nth_equalityI)
  show "length (map (\<lambda>i. if item_id i = item_id (xs ! k) then g i else i) xs) = length (xs[k := g (xs ! k)])"
    by simp
next
  fix j assume "j < length (map (\<lambda>i. if item_id i = item_id (xs ! k) then g i else i) xs)"
  then have j: "j < length xs" by simp
  from same_id_same_index [OF assms j] j assms(2)
  show "map (\<lambda>i. if item_id i = item_id (xs ! k) then g i else i) xs ! j = xs[k := g (xs ! k)] ! j"
    by (simp add: nth_list_update)
qed

lemma addOnce_items:
  assumes "distinct (map item_id (items (state app)))" and "k < length (items (state app))"
    and "item_id (items (state app) ! k) \<noteq> []"
  shows "items (state (addOnce (item_id (items (state app) ! k)) e ev window newId app))
     = (items (state app))[k := addReaction e (items (state app) ! k)]"
  using assms(3) map_at_id [OF assms(1,2), of "addReaction e"]
  by (simp add: addOnce_def handleEmojiSelect_def onAddReaction_def)

lemma removeOnce_items:
  assumes "distinct (map item_id (items (state app)))" and "k < length (items (state app))"
  shows "items (state (removeOnce k e app)) =
     (case find (\<lambda>r. emoji r = e) (reactionsOf (items (state app) ! k)) of
        None \<Rightarrow> items (state app)
      | Some t \<Rightarrow> (items (state app))[k := (items (state app) ! k)\<lparr>reactions := Some
          (if count t > 1
           then map (\<lambda>r. if emoji r = e then r\<lparr>count := count r - 1\<rparr> else r)
                  (reactionsOf (items (state app) ! k))
           else filter (\<lambda>r. emoji r \<noteq> e) (reactionsOf (items (state app) ! k)))\<rparr>])"
  using assms(2) map_at_id [OF assms]
  by (simp add: removeOnce_def handleReactionClick_def updateItem_def Let_def split: option.splits)

lemma find_absent:
  assumes "\<forall>r \<in> set rs. emoji r \<noteq> e"
  shows "find (\<lambda>r. emoji r = e) rs = None"
  using assms by (simp add: find_None_iff)

lemma find_last_entry:
  assumes "\<forall>r \<in> set rs. emoji r \<noteq> e"
  shows "find (\<lambda>r. emoji r = e) (rs @ [\<lparr>emoji = e, count = c\<rparr>]) = Some \<lparr>emoji = e, count = c\<rparr>"
  using assms by (induction rs) simp_all

lemma bump_last_entry:
  assumes "\<forall>r \<in> set rs. emoji r \<noteq> e"
  shows "map (\<lambda>r. if emoji r = e then r\<lparr>count := f (count r)\<rparr> else r) (rs @ [\<lparr>emoji = e, count = c\<rparr>])
     = rs @ [\<lparr>emoji = e, count = f c\<rparr>]"
  using assms by (induction rs) simp_all

lemma reactionsOf_update: "reactionsOf (i\<lparr>reactions := Some rs\<rparr>) = rs"
  by (simp add: reactionsOf_def)

lemma addReaction_first:
  assumes "\<forall>r \<in> set (reactionsOf i). emoji r \<noteq> e"
  shows "reactionsOf (addReaction e i) = reactionsOf i @ [\<lparr>emoji = e, count = 1\<rparr>]"
  by (simp add: addReaction_def Let_def find_absent [OF assms] reactionsOf_update)

lemma addReaction_again:
  assumes "reactionsOf i = rs @ [\<lparr>emoji = e, count = c\<rparr>]" and "\<forall>r \<in> set rs. emoji r \<noteq> e"
  shows "reactionsOf (addReaction e i) = rs @ [\<lparr>emoji = e, count = c + 1\<rparr>]"
  using bump_last_entry [OF assms(2), of "\<lambda>v. v + 1" c]
  by (simp add: addReaction_def Let_def assms(1) find_last_entry [OF assms(2)] reactionsOf_update)

lemma addReaction_id: "item_id (addReaction e i) = item_id i"
  by (simp add: addReaction_def Let_def)

lemma add_iter:
  assumes "distinct (map item_id (items (state app)))" and "k < length (items (state app))"
    and "item_id (items (state app) ! k) \<noteq> []"
    and "\<forall>r \<in> set (reactionsOf (items (state app) ! k)). emoji r \<noteq> e"
  shows "map item_id (items (state ((addOnce (item_id (items (state app) ! k)) e ev window newId ^^ j) app)))
           = map item_id (items (state app))
     \<and> reactionsOf (items (state ((addOnce (item_id (items (state app) ! k)) e ev window newId ^^ j) app)) ! k)
           = (if j = 0 then reactionsOf (items (state app) ! k)
              else reactionsOf (items (state app) ! k) @ [\<lparr>emoji = e, count = real j\<rparr>])"
proof (induction j)
  case 0
  show ?case by simp
next
  case (Suc j)
  let ?t = "item_id (items (state app) ! k)"
  let ?A = "(addOnce ?t e ev window newId ^^ j) app"
  from Suc.IH have ids: "map item_id (items (state ?A)) = map item_id (items (state app))"
    and rs: "reactionsOf (items (state ?A) ! k)
           = (if j = 0 then reactionsOf (items (state app) ! k)
              else reactionsOf (items (state app) ! k) @ [\<lparr>emoji = e, count = real j\<rparr>])"
    by simp_all
  from ids have len: "length (items (state ?A)) = length (items (state app))"
    by (metis length_map)
  have dist: "distinct (map item_id (items (state ?A)))" and k: "k < length (items (state ?A))"
    using assms(1,2) ids len by simp_all
  have t: "item_id (items (state ?A) ! k) = ?t"
    using ids k assms(2) by (metis nth_map)
  have step: "items (state (addOnce ?t e ev window newId ?A))
     = (items (state ?A))[k := addReaction e (items (state ?A) ! k)]"
    using addOnce_items [OF dist k, of e ev window newId] assms(3) unfolding t by simp
  have ids': "map item_id (items (state (addOnce ?t e ev window newId ?A))) = map item_id (items (state app))"
    unfolding step using ids k t assms(2)
    by (simp add: map_update addReaction_id list_update_same_conv)
  have "reactionsOf (addReaction e (items (state ?A) ! k))
      = reactionsOf (items (state app) ! k) @ [\<lparr>emoji = e, count = real (Suc j)\<rparr>]"
  proof (cases "j = 0")
    case True
    with rs assms(4) show ?thesis
      using addReaction_first [of "items (state ?A) ! k" e] by simp
  next
    case False
    with rs assms(4) show ?thesis
      using addReaction_again [of "items (state ?A) ! k" "reactionsOf (items (state app) ! k)" e "real j"]
      by (simp add: add.commute)
  qed
  then have "reactionsOf (items (state (addOnce ?t e ev window newId ?A)) ! k)
      = reactionsOf (items (state app) ! k) @ [\<lparr>emoji = e, count = real (Suc j)\<rparr>]"
    unfolding step using k by simp
  with ids' show ?case by simp
qed

lemma remove_iter:
  assumes "distinct (map item_id (items (state app)))" and "k < length (items (state app))"
    and "reactionsOf (items (state app) ! k) = rs @ [\<lparr>emoji = e, count = real n\<rparr>]"
    and "\<forall>r \<in> set rs. emoji r \<noteq> e" and "j \<le> n" and "0 < n"
  shows "map item_id (items (state ((removeOnce k e ^^ j) app))) = map item_id (items (state app))
     \<and> reactionsOf (items (state ((removeOnce k e ^^ j) app)) ! k)
           = (if j < n then rs @ [\<lparr>emoji = e, count = real (n - j)\<rparr>] else rs)"
  using assms(5)
proof (induction j)
  case 0
  with assms(3,6) show ?case by simp
next
  case (Suc j)
  let ?B = "(removeOnce k e ^^ j) app"
  from Suc have jn: "j < n" by simp
  with Suc.IH have ids: "map item_id (items (state ?B)) = map item_id (items (state app))"
    and rs: "reactionsOf (items (state ?B) ! k) = rs @ [\<lparr>emoji = e, count = real (n - j)\<rparr>]"
    by simp_all
  from ids have len: "length (items (state ?B)) = length (items (state app))"
    by (metis length_map)
  have dist: "distinct (map item_id (items (state ?B)))" and k: "k < length (items (state ?B))"
    using assms(1,2) ids len by simp_all
  have frs: "filter (\<lambda>r. emoji r \<noteq> e) rs = rs"
    using assms(4) by (simp add: filter_id_conv)
  have mrs: "map (\<lambda>r. if emoji r = e then r\<lparr>count := count r - 1\<rparr> else r) rs = rs"
    using assms(4) by (simp add: map_idI)
  have step: "items (state (removeOnce k e ?B)) =
      (items (state ?B))[k := (items (state ?B) ! k)\<lparr>reactions := Some
          (if real (n - j) > 1 then rs @ [\<lparr>emoji = e, count = real (n - j) - 1\<rparr>] else rs)\<rparr>]"
    unfolding removeOnce_items [OF dist k] rs
    by (simp add: find_last_entry [OF assms(4)] frs mrs)
  have t: "item_id (items (state ?B) ! k) = item_id (items (state app) ! k)"
    using ids k assms(2) by (metis nth_map)
  have ids': "map item_id (items (state (removeOnce k e ?B))) = map item_id (items (state app))"
    unfolding step using ids k t assms(2)
    by (simp add: map_update list_update_same_conv)
  have "reactionsOf (items (state (removeOnce k e ?B)) ! k)
      = (if real (n - j) > 1 then rs @ [\<lparr>emoji = e, count = real (n - j) - 1\<rparr>] else rs)"
    unfolding step using k by (simp add: reactionsOf_update)
  also have "\<dots> = (if Suc j < n then rs @ [\<lparr>emoji = e, count = real (n - Suc j)\<rparr>] else rs)"
  proof (cases "Suc j < n")
    case True
    then have "real (n - j) > 1" and "real (n - j) - 1 = real (n - Suc j)"
      by (simp_all add: of_nat_diff)
    with True show ?thesis by simp
  next
    case False
    with jn have "n - j = 1" by simp
    with False show ?thesis by simp
  qed
  finally show ?case using ids' by simp
qed

text \<open>
  C6. Take the item at position \<open>k\<close> of a document with distinct ids, an emoji \<open>e\<close> for
  which the item has no reaction entry, and \<open>n > 0\<close>; the entries the item has count at
  least 1. Adding \<open>e\<close> through the picker \<open>n\<close> times leaves the item with exactly one
  entry for \<open>e\<close>, and its count is \<open>n\<close>. Clicking the badge of \<open>e\<close> \<open>n\<close> times
  after that leaves the item with no entry for \<open>e\<close>, in a document with the same ids.
  After each of the adds and after each of the clicks, every reaction entry of the item
  has a count of at least 1, so no entry with count 0 is ever stored.
\<close>

theorem reaction_counting:
  assumes "distinct (map item_id (items (state app)))" and "k < length (items (state app))"
    and "item_id (items (state app) ! k) \<noteq> []"
    and "\<forall>r \<in> set (reactionsOf (items (state app) ! k)). emoji r \<noteq> e \<and> 1 \<le> count r"
    and "0 < n"
  shows "filter (\<lambda>r. emoji r = e)
           (reactionsOf (items (state
              ((addOnce (item_id (items (state app) ! k)) e ev window newId ^^ n) app)) ! k))
         = [\<lparr>emoji = e, count = real n\<rparr>]
     \<and> filter (\<lambda>r. emoji r = e)
           (reactionsOf (items (state ((removeOnce k e ^^ n)
              ((addOnce (item_id (items (state app) ! k)) e ev window newId ^^ n) app))) ! k))
         = []
     \<and> map item_id (items (state ((removeOnce k e ^^ n)
              ((addOnce (item_id (items (state app) ! k)) e ev window newId ^^ n) app))))
         = map item_id (items (state app))
     \<and> (\<forall>j \<le> n.
          (\<forall>r \<in> set (reactionsOf (items (state
              ((addOnce (item_id (items (state app) ! k)) e ev window newId ^^ j) app)) ! k)).
             1 \<le> count r)
          \<and> (\<forall>r \<in> set (reactionsOf (items (state ((removeOnce k e ^^ j)
              ((addOnce (item_id (items (state app) ! k)) e ev window newId ^^ n) app))) ! k)).
             1 \<le> count r))"
proof -
  let ?rs = "reactionsOf (items (state app) ! k)"
  let ?add = "addOnce (item_id (items (state app) ! k)) e ev window newId"
  let ?A = "(?add ^^ n) app"
  from assms(4) have absent: "\<forall>r \<in> set ?rs. emoji r \<noteq> e" and ones: "\<forall>r \<in> set ?rs. 1 \<le> count r"
    by simp_all
  note adds = add_iter [OF assms(1,2,3) absent, of _ ev window newId]
  from adds [of n] assms(5)
  have idsA: "map item_id (items (state ?A)) = map item_id (items (state app))"
    and rsA: "reactionsOf (items (state ?A) ! k) = ?rs @ [\<lparr>emoji = e, count = real n\<rparr>]"
    by simp_all
  from idsA have "length (items (state ?A)) = length (items (state app))"
    by (metis length_map)
  with assms(1,2) idsA have distA: "distinct (map item_id (items (state ?A)))"
    and kA: "k < length (items (state ?A))"
    by simp_all
  note rems = remove_iter [OF distA kA rsA absent _ assms(5)]
  have none: "filter (\<lambda>r. emoji r = e) ?rs = []"
    using absent by (simp add: filter_empty_conv)
  have one: "filter (\<lambda>r. emoji r = e) (reactionsOf (items (state ?A) ! k))
      = [\<lparr>emoji = e, count = real n\<rparr>]"
    unfolding rsA by (simp add: none)
  from rems [of n] have restored: "reactionsOf (items (state ((removeOnce k e ^^ n) ?A)) ! k) = ?rs"
    and idsR: "map item_id (items (state ((removeOnce k e ^^ n) ?A))) = map item_id (items (state app))"
    using idsA by simp_all
  have zero: "filter (\<lambda>r. emoji r = e) (reactionsOf (items (state ((removeOnce k e ^^ n) ?A)) ! k)) = []"
    unfolding restored by (rule none)
  have counts: "(\<forall>r \<in> set (reactionsOf (items (state ((?add ^^ j) app)) ! k)). 1 \<le> count r)
      \<and> (\<forall>r \<in> set (reactionsOf (items (state ((removeOnce k e ^^ j) ?A)) ! k)). 1 \<le> count r)"
    if j: "j \<le> n" for j
  proof -
    from adds [of j] have a: "reactionsOf (items (state ((?add ^^ j) app)) ! k)
        = (if j = 0 then ?rs else ?rs @ [\<lparr>emoji = e, count = real j\<rparr>])"
      by simp
    from rems [OF j] have r: "reactionsOf (items (state ((removeOnce k e ^^ j) ?A)) ! k)
        = (if j < n then ?rs @ [\<lparr>emoji = e, count = real (n - j)\<rparr>] else ?rs)"
      by simp
    have "\<forall>r \<in> set (reactionsOf (items (state ((?add ^^ j) app)) ! k)). 1 \<le> count r"
      unfolding a using ones by auto
    moreover have "\<forall>r \<in> set (reactionsOf (items (state ((removeOnce k e ^^ j) ?A)) ! k)). 1 \<le> count r"
      unfolding r using ones by auto
    ultimately show ?thesis by blast
  qed
  from one zero idsR counts show ?thesis by blast
qed

theorem reaction_counting_witness:
  "distinct (map item_id (items (state reacted))) \<and> (0::nat) < length (items (state reacted))
   \<and> item_id (items (state reacted) ! 0) \<noteq> []
   \<and> list_all (\<lambda>r. emoji r \<noteq> ''y'' \<and> 1 \<le> count r) (reactionsOf (items (state reacted) ! 0))
   \<and> (0::nat) < 2
   \<and> reactionsOf (items (state ((addOnce ''a'' ''y'' (mkEvent 5 5) desktop ''n1'' ^^ 2) reacted)) ! 0)
       = [\<lparr>emoji = ''x'', count = 2\<rparr>, \<lparr>emoji = ''y'', count = 2\<rparr>]
   \<and> filter (\<lambda>r. emoji r = ''y'')
        (reactionsOf (items (state ((addOnce ''a'' ''y'' (mkEvent 5 5) desktop ''n1'' ^^ 2) reacted)) ! 0))
       = [\<lparr>emoji = ''y'', count = 2\<rparr>]
   \<and> reactionsOf (items (state ((removeOnce 0 ''y'' ^^ 2)
         ((addOnce ''a'' ''y'' (mkEvent 5 5) desktop ''n1'' ^^ 2) reacted))) ! 0)
       = [\<lparr>emoji = ''x'', count = 2\<rparr>]"
proof -
  have h: "distinct (map item_id (items (state reacted)))" "(0::nat) < length (items (state reacted))"
    "item_id (items (state reacted) ! 0) \<noteq> []"
    "\<forall>r \<in> set (reactionsOf (items (state reacted) ! 0)). emoji r \<noteq> ''y'' \<and> 1 \<le> count r"
    "(0::nat) < 2"
    by (simp_all add: reacted_def mkApp_def mkItem_def reactionsOf_def)
  have a: "item_id (items (state reacted) ! 0) = ''a''"
    by (simp add: reacted_def mkApp_def mkItem_def)
  have added: "(addOnce ''a'' ''y'' (mkEvent 5 5) desktop ''n1'' ^^ 2) reacted
      = mkApp [(mkItem ''a'' Text 0 0 100 100 1)\<lparr>reactions :=
                  Some [\<lparr>emoji = ''x'', count = 2\<rparr>, \<lparr>emoji = ''y'', count = 2\<rparr>]\<rparr>,
               mkItem ''b'' Text 300 0 100 100 2] [] []"
    by (simp add: numeral_2_eq_2 addOnce_def handleEmojiSelect_def onAddReaction_def
        addReaction_def reactionsOf_def reacted_def mkApp_def mkItem_def Let_def)
  have removed: "reactionsOf (items (state ((removeOnce 0 ''y'' ^^ 2)
         ((addOnce ''a'' ''y'' (mkEvent 5 5) desktop ''n1'' ^^ 2) reacted))) ! 0)
       = [\<lparr>emoji = ''x'', count = 2\<rparr>]"
    unfolding added
    by (simp add: numeral_2_eq_2 removeOnce_def handleReactionClick_def updateItem_def
        reactionsOf_def mkApp_def mkItem_def Let_def)
  have shown: "reactionsOf (items (state ((addOnce ''a'' ''y'' (mkEvent 5 5) desktop ''n1'' ^^ 2) reacted)) ! 0)
       = [\<lparr>emoji = ''x'', count = 2\<rparr>, \<lparr>emoji = ''y'', count = 2\<rparr>]"
    unfolding added by (simp add: reactionsOf_def mkApp_def mkItem_def)
  from reaction_counting [OF h, of "mkEvent 5 5" desktop "''n1''"]
  have one: "filter (\<lambda>r. emoji r = ''y'')
        (reactionsOf (items (state ((addOnce ''a'' ''y'' (mkEvent 5 5) desktop ''n1'' ^^ 2) reacted)) ! 0))
       = [\<lparr>emoji = ''y'', count = 2\<rparr>]"
    unfolding a by simp
  from h(4) have "list_all (\<lambda>r. emoji r \<noteq> ''y'' \<and> 1 \<le> count r) (reactionsOf (items (state reacted) ! 0))"
    by (simp add: list_all_iff)
  with h(1,2,3,5) shown one removed show ?thesis by simp
qed

section \<open>The layer of a new item\<close>

lemma fold_max_upper:
  fixes a :: real
  assumes "x \<in> set (a # xs)"
  shows "x \<le> fold max xs a"
proof -
  have "fold max xs a = Max (set (a # xs))"
    by (rule Max.set_eq_fold [symmetric])
  with assms show ?thesis by simp
qed

lemma fold_min_lower_bound:
  fixes a :: real
  assumes "x \<in> set (a # xs)"
  shows "fold min xs a \<le> x"
proof -
  have "fold min xs a = Min (set (a # xs))"
    by (rule Min.set_eq_fold [symmetric])
  with assms show ?thesis by simp
qed

lemma maxZ_upper:
  assumes "i \<in> set is"
  shows "zIndex i \<le> maxZ is"
proof -
  from assms have "zIndex i \<in> set (map zIndex is)" by simp
  then show ?thesis
    unfolding maxZ_def by (cases "map zIndex is") (auto intro: fold_max_upper)
qed

lemma minZ_lower:
  assumes "i \<in> set is"
  shows "minZ is \<le> zIndex i"
proof -
  from assms have "zIndex i \<in> set (map zIndex is)" by simp
  then show ?thesis
    unfolding minZ_def by (cases "map zIndex is") (auto intro: fold_min_lower_bound)
qed

text \<open>
  \<open>addItem\<close> puts a shape below every item of the document and any other item above
  every item of the document.
\<close>

lemma addItem_zIndex:
  "\<exists>new. items (state (addItem type extras window newId app)) = items (state app) @ [new]
     \<and> item_id new = newId \<and> item_type new = type
     \<and> (\<forall>i \<in> set (items (state app)).
           if type = Shape then zIndex new < zIndex i else zIndex i < zIndex new)"
proof -
  have "\<forall>i \<in> set (items (state app)).
      if type = Shape then minZ (items (state app)) - 1 < zIndex i
      else zIndex i < maxZ (items (state app)) + 1"
  proof
    fix i assume "i \<in> set (items (state app))"
    from maxZ_upper [OF this] minZ_lower [OF this]
    show "if type = Shape then minZ (items (state app)) - 1 < zIndex i
      else zIndex i < maxZ (items (state app)) + 1"
      by (cases "type = Shape") simp_all
  qed
  then show ?thesis
    by (simp add: addItem_def Let_def)
qed

lemma oneLeft_items: "items (state oneLeft) = [(mkItem ''c'' Todo 540 285 250 180 3)
   \<lparr>content := Some [], todos := Some [\<lparr>todo_id = ''1'', todo_text = ''Define goals'',
                                  completed = False, urgency = High\<rparr>,
                                 \<lparr>todo_id = ''2'', todo_text = ''Gather inspiration'',
                                  completed = False, urgency = Low\<rparr>],
     fontWeight := Some ''400'', fontStyle := Some ''normal'', opacity := Some 1,
     shapeType := Some Rectangle\<rparr>]"
  by (simp add: oneLeft_def clickAndDelete_def handleKeyDown_def handleMouseUp_def
      handleItemMouseDown_def addItem_def freshApp_def INITIAL_STATE_def deleteKey_def
      mkEvent_def noExtras_def desktop_def maxZ_def minZ_def mkItem_def Let_def)

lemma oneLeft_rest: "toolMode oneLeft = ToolSelect" "emojiPicker oneLeft = None"
  "pan (state oneLeft) = \<lparr>px = 0, py = 0\<rparr>" "scale (state oneLeft) = 1"
  by (simp_all add: oneLeft_def clickAndDelete_def handleKeyDown_def handleMouseUp_def
      handleItemMouseDown_def addItem_def freshApp_def INITIAL_STATE_def deleteKey_def
      mkEvent_def noExtras_def desktop_def maxZ_def minZ_def mkItem_def Let_def)

text \<open>
  C9. The pen pointer-down and the insertion of generated text items take the number of
  items plus one (plus the index) as the \<open>zIndex\<close> of a new item, not the largest
  \<open>zIndex\<close> plus one as \<open>addItem\<close> does. In the document with the single item \<open>c\<close>
  of \<open>zIndex\<close> 3, reached by adding three items and deleting the first two, the new
  drawing item gets the \<open>zIndex\<close> 2, and so does the new text item: the new item is not
  above the item that was there.
\<close>

theorem creation_zIndex_below:
  "map item_id (items (state oneLeft)) = [''c'']
   \<and> map zIndex (items (state oneLeft)) = [3]
   \<and> map item_id (items (state (handleMouseDown (mkEvent 600 300) ''d'' (togglePen oneLeft))))
        = [''c'', ''d'']
   \<and> map zIndex (items (state (handleMouseDown (mkEvent 600 300) ''d'' (togglePen oneLeft))))
        = [3, 2]
   \<and> map item_id (items (state (handleAiGenerate [''Focus''] desktop (\<lambda>idx. (''t'', 1 / 2, 1 / 2)) oneLeft)))
        = [''c'', ''t'']
   \<and> map zIndex (items (state (handleAiGenerate [''Focus''] desktop (\<lambda>idx. (''t'', 1 / 2, 1 / 2)) oneLeft)))
        = [3, 2]"
proof -
  have pen: "items (state (handleMouseDown (mkEvent 600 300) ''d'' (togglePen oneLeft)))
      = items (state oneLeft) @
        [(mkItem ''d'' Drawing 600 300 0 0 2)\<lparr>drawingData :=
           Some [\<lparr>points = [\<lparr>px = 0, py = 0\<rparr>], path_color = drawingColor oneLeft, strokeWidth = 3\<rparr>]\<rparr>]"
    by (simp add: handleMouseDown_def togglePen_def Let_def oneLeft_rest oneLeft_items
        mkEvent_def mkItem_def)
  have ai: "map zIndex (items (state (handleAiGenerate [''Focus''] desktop (\<lambda>idx. (''t'', 1 / 2, 1 / 2)) oneLeft)))
        = [3, 2]"
    "map item_id (items (state (handleAiGenerate [''Focus''] desktop (\<lambda>idx. (''t'', 1 / 2, 1 / 2)) oneLeft)))
        = [''c'', ''t'']"
    by (simp_all add: handleAiGenerate_def aiTextItem_def Let_def oneLeft_items mkItem_def)
  show ?thesis
    unfolding pen by (simp add: ai oneLeft_items mkItem_def)
qed

end
